theory Spec2Isabelle
  imports Complex_Main "HOL-Library.AList"
begin

section \<open>Data model\<close>

text \<open>
  The weapon strike execution of \<^verbatim>\<open>src/core/execution/NukeExecution.ts\<close> is embedded
  with explicit state passing: every method takes the execution object and the game it
  is bound to and returns both, updated. The classes the file imports (\<^verbatim>\<open>Game\<close>,
  \<^verbatim>\<open>Player\<close>, \<^verbatim>\<open>Unit\<close>, \<^verbatim>\<open>ParabolaPathFinder\<close>, \<^verbatim>\<open>PseudoRandom\<close>, the configuration)
  are defined in other files of the repository. Their state is kept in the record \<open>Game\<close>, with
  operations modelled from the specification, and what the specification leaves open
  (tuning tables, launch-site resolution, the curve of a trajectory, the random
  generator) is taken as a parameter, in the record \<open>Env\<close>.
\<close>

type_synonym TileRef = nat
type_synonym PlayerID = nat
type_synonym UnitID = nat

text \<open>
  \<^verbatim>\<open>UnitType\<close>: the four weapon classes of \<^verbatim>\<open>NukeType\<close>, the two other types the file
  names (\<^verbatim>\<open>MissileSilo\<close>, \<^verbatim>\<open>TransportShip\<close>), and some further members of the enumeration.
\<close>

datatype UnitType =
    AtomBomb | HydrogenBomb | MIRV | MIRVWarhead
  | MissileSilo | TransportShip
  | Warship | City | Port | DefensePost | SAMLauncher

text \<open>Modelled from the spec: the structure-category unit types (section 4.3, detonation step 5).\<close>

fun isStructureType :: "UnitType \<Rightarrow> bool" where
  "isStructureType MissileSilo = True"
| "isStructureType City = True"
| "isStructureType Port = True"
| "isStructureType DefensePost = True"
| "isStructureType SAMLauncher = True"
| "isStructureType _ = False"

datatype MessageType = NUKE_INBOUND | HYDROGEN_BOMB_INBOUND

text \<open>
  Calls that leave the execution for a collaborator whose answer is not read back (the
  console, the display channel, the statistics sink, relation scores, cooldowns, visual
  refresh) are recorded in a log, in the order the code issues them. The diplomacy calls
  are logged as well, besides updating the state.
\<close>

datatype Event =
    ConsoleWarn string
  | ConsoleLog string
  | DisplayIncomingUnit UnitID string MessageType PlayerID
  | BombLaunch PlayerID "PlayerID option" UnitType
  | BombLand PlayerID "PlayerID option" UnitType
  | RejectAllianceRequest PlayerID PlayerID
  | BreakAlliance PlayerID PlayerID
  | UpdateRelation PlayerID PlayerID int
  | SiloLaunch UnitID
  | UnitTouch UnitID
  | UnitDestroyed UnitID PlayerID

text \<open>Modelled from the spec: a Unit (section 3): type tag, owner, position, active flag,
  optional target tile, trajectory, trajectory-progress index, targetable flag. Units that
  carry troops (transport ships) have a troop count.\<close>

record UnitImpl =
  unitType :: UnitType
  unitOwner :: PlayerID
  unitTile :: TileRef
  unitActive :: bool
  unitTargetTile :: "TileRef option"
  unitTrajectory :: "(TileRef \<times> bool) list"
  unitTrajectoryIndex :: nat
  unitTargetable :: bool
  unitReachedTarget :: bool
  unitTroops :: rat

text \<open>
  Modelled from the spec: the world state (sections 2 and 3). Tiles are indices into a
  grid of \<open>mapWidth * mapHeight\<close> cells; a tile has at most one owning player (\<open>None\<close> is
  unclaimed land, the \<^verbatim>\<open>TerraNullius\<close> of the code). Unit objects live in a store indexed
  by their id; \<open>unitIds\<close> lists the ids handed out, in creation order. Alliances are a
  symmetric relation and pending alliance requests a directed one (requestor, recipient).
\<close>

record Game =
  mapWidth :: nat
  mapHeight :: nat
  tileOwner :: "TileRef \<Rightarrow> PlayerID option"
  landTiles :: "TileRef \<Rightarrow> bool"
  falloutTiles :: "TileRef \<Rightarrow> bool"
  tickCount :: nat
  unitStore :: "UnitID \<Rightarrow> UnitImpl"
  unitIds :: "UnitID list"
  playerTroops :: "PlayerID \<Rightarrow> rat"
  playerName :: "PlayerID \<Rightarrow> string"
  attackTroops :: "(PlayerID \<times> rat) list"
  allianceRel :: "(PlayerID \<times> PlayerID) set"
  requestRel :: "(PlayerID \<times> PlayerID) set"
  eventLog :: "Event list"

text \<open>Modelled from the spec: the trajectory planner (section 2) holds a path and a cursor
  on it.\<close>

record PathFinder =
  pfTiles :: "TileRef list"
  pfCursor :: nat

text \<open>
  The collaborators taken as parameters: the configuration provider of section 6
  (default speed, radius pair per weapon class, alliance-break threshold, targetable
  range, max-troops ceiling, damage function), \<^verbatim>\<open>Player.canBuild\<close> (\<open>None\<close> is its
  \<^verbatim>\<open>false\<close>), the tiles of the curve \<^verbatim>\<open>computeControlPoints\<close> lays out, and the
  generator \<^verbatim>\<open>PseudoRandom\<close> (its state is a number; \<open>randChance s odds\<close> is one draw
  of \<^verbatim>\<open>chance(odds)\<close> in state \<open>s\<close>, with the next state).
\<close>

record Env =
  defaultNukeSpeed :: int
  nukeMagnitudes :: "UnitType \<Rightarrow> int \<times> int"
  nukeAllianceBreakThreshold :: rat
  defaultNukeTargetableRange :: int
  maxTroops :: "Game \<Rightarrow> PlayerID \<Rightarrow> rat"
  nukeDeathFactor :: "UnitType \<Rightarrow> rat \<Rightarrow> nat \<Rightarrow> rat \<Rightarrow> rat"
  canBuild :: "Game \<Rightarrow> PlayerID \<Rightarrow> UnitType \<Rightarrow> TileRef \<Rightarrow> TileRef option"
  curveTiles :: "Game \<Rightarrow> TileRef \<Rightarrow> TileRef \<Rightarrow> int \<Rightarrow> bool \<Rightarrow> TileRef list"
  randSeed :: "nat \<Rightarrow> nat"
  randChance :: "nat \<Rightarrow> nat \<Rightarrow> bool \<times> nat"

text \<open>
  The fields of \<^verbatim>\<open>class NukeExecution\<close>. \<open>mg\<close> tells whether \<^verbatim>\<open>init\<close> has bound the
  game (the game itself is passed to each method); \<open>nuke\<close> is the reference to the
  spawned Unit, its id in the store; \<open>src\<close> is \<open>None\<close> for \<^verbatim>\<open>null\<close> and
  \<^verbatim>\<open>undefined\<close>; the cache is a list without duplicates, in insertion order, as a
  JavaScript \<^verbatim>\<open>Set\<close> iterates. \<open>waitTicks\<close> is a whole number of ticks, held in a
  JavaScript number: arithmetic on it rounds as a double does (\<open>roundToDouble\<close> below).
\<close>

record NukeExecution =
  active :: bool
  mg :: bool
  nuke :: "UnitID option"
  tilesToDestroyCache :: "TileRef list option"
  pathFinder :: "PathFinder option"
  nukeType :: UnitType
  player :: PlayerID
  dst :: TileRef
  src :: "TileRef option"
  speed :: int
  waitTicks :: int

text \<open>A call returns or throws; a throw leaves the state as it was at that point.\<close>

datatype Error = NotInitialized | TypeError

datatype Outcome = Returned | Threw Error

text \<open>The constructor: \<^verbatim>\<open>active = true\<close>, no Unit, no cache, speed \<open>-1\<close> and no wait
  unless given.\<close>

definition newNukeExecution ::
  "UnitType \<Rightarrow> PlayerID \<Rightarrow> TileRef \<Rightarrow> TileRef option \<Rightarrow> int \<Rightarrow> int \<Rightarrow> NukeExecution" where
  "newNukeExecution ty p d s sp wt =
     \<lparr>active = True, mg = False, nuke = None, tilesToDestroyCache = None,
      pathFinder = None, nukeType = ty, player = p, dst = d, src = s, speed = sp,
      waitTicks = wt\<rparr>"

section \<open>JavaScript numbers\<close>

text \<open>
  A JavaScript number is an IEEE-754 double, with a significand of 53 bits. Every whole
  number up to \<open>2 ^ 53\<close> in magnitude is a double; beyond, the doubles are 2 apart, then 4
  apart, and so on. \<open>doubleUlp m\<close> is the distance between neighbouring doubles at the
  magnitude of \<open>m \<ge> 0\<close>.
\<close>

function doubleUlp :: "int \<Rightarrow> int" where
  "doubleUlp m = (if m < 2 ^ 53 then 1 else 2 * doubleUlp (m div 2))"
  by pat_completeness auto
termination
  by (relation "measure nat") auto

declare doubleUlp.simps [simp del]

text \<open>
  The result of an arithmetic operation on doubles is the double nearest to the exact
  result, a tie going to the double with the even significand. \<open>roundToDouble m\<close> is that
  double for a whole number \<open>m\<close>.
\<close>

definition roundToDouble :: "int \<Rightarrow> int" where
  "roundToDouble m =
     (let a = \<bar>m\<bar>;
          u = doubleUlp a;
          q = a div u;
          r = a mod u
      in sgn m * (if 2 * r < u then q * u
                  else if u < 2 * r then (q + 1) * u
                  else if even q then q * u else (q + 1) * u))"

section \<open>The game, as the execution uses it\<close>

text \<open>Modelled from the spec: \<^verbatim>\<open>Game.hasOwner\<close>, the ownership lookup of section 3. A tile
  has an owner when a player owns it; \<^verbatim>\<open>mg.owner(t)\<close> itself is the field \<open>tileOwner\<close>.\<close>

definition hasOwner :: "Game \<Rightarrow> TileRef \<Rightarrow> bool" where
  "hasOwner g t = (tileOwner g t \<noteq> None)"

text \<open>Modelled from the spec: \<^verbatim>\<open>Game.isLand\<close>, the land/water query of section 6.\<close>

definition isLand :: "Game \<Rightarrow> TileRef \<Rightarrow> bool" where
  "isLand g t = landTiles g t"

text \<open>Modelled from the spec: \<^verbatim>\<open>Game.x\<close>, the column of a tile of the grid.\<close>

definition tileX :: "Game \<Rightarrow> TileRef \<Rightarrow> int" where
  "tileX g t = int (t mod mapWidth g)"

text \<open>Modelled from the spec: \<^verbatim>\<open>Game.y\<close>, the row of a tile of the grid.\<close>

definition tileY :: "Game \<Rightarrow> TileRef \<Rightarrow> int" where
  "tileY g t = int (t div mapWidth g)"

text \<open>Modelled from the spec: \<^verbatim>\<open>Game.euclideanDistSquared\<close>, the squared Euclidean distance
  between two tiles (section 3).\<close>

definition euclideanDistSquared :: "Game \<Rightarrow> TileRef \<Rightarrow> TileRef \<Rightarrow> int" where
  "euclideanDistSquared g a b =
     (tileX g a - tileX g b) * (tileX g a - tileX g b)
     + (tileY g a - tileY g b) * (tileY g a - tileY g b)"

text \<open>Modelled from the spec: the tiles of the map grid, by index.\<close>

definition mapTiles :: "Game \<Rightarrow> TileRef list" where
  "mapTiles g = [0 ..< mapWidth g * mapHeight g]"

text \<open>Modelled from the spec: \<^verbatim>\<open>Game.circleSearch\<close>, the circular search primitive of section 6. It
  hands every tile of the map within the radius of the centre to its callback, with the
  squared distance; the callback of the execution accepts them all.\<close>

definition circleSearch :: "Game \<Rightarrow> TileRef \<Rightarrow> int \<Rightarrow> (TileRef \<times> int) list" where
  "circleSearch g c r =
     map (\<lambda>t. (t, euclideanDistSquared g c t))
       (filter (\<lambda>t. euclideanDistSquared g c t \<le> r * r) (mapTiles g))"

text \<open>Modelled from the spec: \<^verbatim>\<open>Game.neighbors\<close>: the tiles of the map above, below, left and right
  of a tile.\<close>

definition neighbors :: "Game \<Rightarrow> TileRef \<Rightarrow> TileRef list" where
  "neighbors g t =
     filter (\<lambda>n. n < mapWidth g * mapHeight g)
       ((if 0 < t div mapWidth g then [t - mapWidth g] else [])
        @ (if t div mapWidth g + 1 < mapHeight g then [t + mapWidth g] else [])
        @ (if 0 < t mod mapWidth g then [t - 1] else [])
        @ (if t mod mapWidth g + 1 < mapWidth g then [t + 1] else []))"

text \<open>Modelled from the spec: the inner loop of \<^verbatim>\<open>Game.bfs\<close>, over the neighbours of the tile taken
  from the queue. A neighbour not yet seen is admitted when the filter accepts it. The
  filter of the execution draws random numbers, so the search threads the filter's state
  \<open>s\<close>; as in \<^verbatim>\<open>!seen.has(n) && filter(n)\<close>, a tile already seen costs no call of the filter.\<close>

fun bfsVisit ::
  "(TileRef \<Rightarrow> 's \<Rightarrow> bool \<times> 's) \<Rightarrow> TileRef list \<Rightarrow> TileRef list \<times> TileRef list \<times> 's
   \<Rightarrow> TileRef list \<times> TileRef list \<times> 's" where
  "bfsVisit f [] (q, seen, s) = (q, seen, s)"
| "bfsVisit f (n # ns) (q, seen, s) =
     (if n \<in> set seen then bfsVisit f ns (q, seen, s)
      else (case f n s of
              (True, s') \<Rightarrow> bfsVisit f ns (q @ [n], seen @ [n], s')
            | (False, s') \<Rightarrow> bfsVisit f ns (q, seen, s')))"


text \<open>Modelled from the spec: the outer loop of \<^verbatim>\<open>Game.bfs\<close>, the breadth-first primitive of
  section 6: it takes the first tile of the queue and visits its neighbours, until the
  queue is empty. It terminates because every round either admits a new tile of the map or
  shortens the queue.\<close>

function bfsLoop ::
  "Game \<Rightarrow> (TileRef \<Rightarrow> 's \<Rightarrow> bool \<times> 's) \<Rightarrow> TileRef list \<times> TileRef list \<times> 's
   \<Rightarrow> TileRef list \<times> 's" where
  "bfsLoop g f ([], seen, s) = (seen, s)"
| "bfsLoop g f (c # q, seen, s) = bfsLoop g f (bfsVisit f (neighbors g c) (q, seen, s))"
  by pat_completeness auto
termination
proof (relation "inv_image (less_than <*lex*> less_than)
    (\<lambda>(g, f, q, seen, s). (card ({..< mapWidth g * mapHeight g} - set seen), length q))")
  show "wf (inv_image (less_than <*lex*> less_than)
    (\<lambda>(g, f, q, seen, s). (card ({..< mapWidth g * mapHeight g} - set seen), length q)))"
    by (intro wf_inv_image wf_lex_prod wf_less_than)
next
  fix g :: Game and f :: "TileRef \<Rightarrow> 's \<Rightarrow> bool \<times> 's" and c q seen and s :: 's
  have progress:
    "set seen0 \<subseteq> set seen1 \<and>
     ((seen1 = seen0 \<and> q1 = q0) \<or> (\<exists>n \<in> set ns. n \<notin> set seen0 \<and> n \<in> set seen1))"
    if "bfsVisit f ns (q0, seen0, s0) = (q1, seen1, s1)"
    for ns q0 seen0 s0 q1 seen1 s1
    using that
  proof (induction ns arbitrary: q0 seen0 s0)
    case Nil
    then show ?case by simp
  next
    case (Cons n ns)
    show ?case
    proof (cases "n \<in> set seen0")
      case True
      with Cons.prems have "bfsVisit f ns (q0, seen0, s0) = (q1, seen1, s1)" by simp
      from Cons.IH [OF this] show ?thesis by auto
    next
      case False
      obtain b s' where fn: "f n s0 = (b, s')" by (cases "f n s0")
      show ?thesis
      proof (cases b)
        case True
        with False fn Cons.prems
        have "bfsVisit f ns (q0 @ [n], seen0 @ [n], s') = (q1, seen1, s1)" by simp
        from Cons.IH [OF this] False show ?thesis by auto
      next
        case rejected: False
        with False fn Cons.prems
        have "bfsVisit f ns (q0, seen0, s') = (q1, seen1, s1)" by simp
        from Cons.IH [OF this] show ?thesis by auto
      qed
    qed
  qed
  obtain q' seen' s' where v: "bfsVisit f (neighbors g c) (q, seen, s) = (q', seen', s')"
    by (cases "bfsVisit f (neighbors g c) (q, seen, s)")
  let ?U = "{..< mapWidth g * mapHeight g}"
  from progress [OF v]
  have sub: "set seen \<subseteq> set seen'"
    and alt: "(seen' = seen \<and> q' = q)
              \<or> (\<exists>n \<in> set (neighbors g c). n \<notin> set seen \<and> n \<in> set seen')"
    by auto
  from alt have "card (?U - set seen') < card (?U - set seen) \<or> (seen' = seen \<and> q' = q)"
  proof
    assume "seen' = seen \<and> q' = q"
    then show ?thesis by simp
  next
    assume "\<exists>n \<in> set (neighbors g c). n \<notin> set seen \<and> n \<in> set seen'"
    then obtain n where n: "n \<in> set (neighbors g c)" "n \<notin> set seen" "n \<in> set seen'"
      by blast
    from n(1) have "n \<in> ?U" unfolding neighbors_def set_filter by blast
    with n sub have "?U - set seen' \<subset> ?U - set seen" by blast
    then have "card (?U - set seen') < card (?U - set seen)"
      by (intro psubset_card_mono) auto
    then show ?thesis by simp
  qed
  then show "((g, f, bfsVisit f (neighbors g c) (q, seen, s)), (g, f, c # q, seen, s))
    \<in> inv_image (less_than <*lex*> less_than)
       (\<lambda>(g, f, q, seen, s). (card ({..< mapWidth g * mapHeight g} - set seen), length q))"
    by (auto simp: v)
qed

text \<open>Modelled from the spec: \<^verbatim>\<open>Game.bfs(start, filter)\<close>, the breadth-first expansion from the
  start tile (section 4.3, detonation step 2).\<close>

definition bfs ::
  "Game \<Rightarrow> TileRef \<Rightarrow> (TileRef \<Rightarrow> 's \<Rightarrow> bool \<times> 's) \<Rightarrow> 's \<Rightarrow> TileRef list \<times> 's" where
  "bfs g start f s = bfsLoop g f ([start], [start], s)"

text \<open>Modelled from the spec: the event channels of section 6 (display, statistics, console)
  append to the log.\<close>

definition logEvent :: "Event \<Rightarrow> Game \<Rightarrow> Game" where
  "logEvent ev g = g\<lparr>eventLog := eventLog g @ [ev]\<rparr>"

text \<open>Modelled from the spec: \<^verbatim>\<open>Game.units()\<close>. Deletion removes a Unit from world state
  (section 3), so the units of the game are the active ones.\<close>

definition units :: "Game \<Rightarrow> UnitID list" where
  "units g = filter (\<lambda>u. unitActive (unitStore g u)) (unitIds g)"

text \<open>Modelled from the spec: \<^verbatim>\<open>Player.units(type)\<close>, the units of a player of one type.\<close>

definition playerUnits :: "Game \<Rightarrow> PlayerID \<Rightarrow> UnitType \<Rightarrow> UnitID list" where
  "playerUnits g p ty =
     filter (\<lambda>u. unitOwner (unitStore g u) = p \<and> unitType (unitStore g u) = ty) (units g)"

text \<open>Modelled from the spec: the setters of a Unit (position, trajectory index, targetable
  flag, troops), as an update of its entry in the store.\<close>

definition updateUnit :: "UnitID \<Rightarrow> (UnitImpl \<Rightarrow> UnitImpl) \<Rightarrow> Game \<Rightarrow> Game" where
  "updateUnit u f g = g\<lparr>unitStore := (unitStore g)(u := f (unitStore g u))\<rparr>"

text \<open>Modelled from the spec: \<^verbatim>\<open>Unit.delete(displayMessage, destroyer)\<close>. The Unit becomes inactive;
  a deletion attributed to a player is reported.\<close>

definition unitDelete :: "UnitID \<Rightarrow> PlayerID option \<Rightarrow> Game \<Rightarrow> Game" where
  "unitDelete u destroyer g =
     (let g1 = updateUnit u (\<lambda>x. x\<lparr>unitActive := False\<rparr>) g
      in case destroyer of None \<Rightarrow> g1 | Some p \<Rightarrow> logEvent (UnitDestroyed u p) g1)"

text \<open>Modelled from the spec: the id of the next Unit, above every id handed out so far.\<close>

definition freshUnitId :: "Game \<Rightarrow> UnitID" where
  "freshUnitId g = Suc (fold max (unitIds g) 0)"

text \<open>Modelled from the spec: \<^verbatim>\<open>Player.buildUnit\<close> constructs the Unit at the source tile, with
  the target tile and the trajectory attached (section 4.3, launch step 3).\<close>

definition buildUnit ::
  "PlayerID \<Rightarrow> UnitType \<Rightarrow> TileRef \<Rightarrow> TileRef option \<Rightarrow> (TileRef \<times> bool) list \<Rightarrow> Game
   \<Rightarrow> UnitID \<times> Game" where
  "buildUnit p ty spawn tgt traj g =
     (let u = freshUnitId g
      in (u, g\<lparr>unitStore := (unitStore g)(u :=
                 \<lparr>unitType = ty, unitOwner = p, unitTile = spawn, unitActive = True,
                  unitTargetTile = tgt, unitTrajectory = traj, unitTrajectoryIndex = 0,
                  unitTargetable = True, unitReachedTarget = False, unitTroops = 0\<rparr>),
               unitIds := unitIds g @ [u]\<rparr>))"

text \<open>Modelled from the spec: \<^verbatim>\<open>Player.relinquish(tile)\<close>: the tile has no owner afterwards.\<close>

definition relinquish :: "PlayerID \<Rightarrow> TileRef \<Rightarrow> Game \<Rightarrow> Game" where
  "relinquish p t g = g\<lparr>tileOwner := (tileOwner g)(t := None)\<rparr>"

text \<open>Modelled from the spec: \<^verbatim>\<open>Player.removeTroops(n)\<close> reduces the troop count of the player.\<close>

definition removeTroops :: "PlayerID \<Rightarrow> rat \<Rightarrow> Game \<Rightarrow> Game" where
  "removeTroops p n g = g\<lparr>playerTroops := (playerTroops g)(p := playerTroops g p - n)\<rparr>"

text \<open>Modelled from the spec: \<^verbatim>\<open>Player.numTilesOwned()\<close>.\<close>

definition numTilesOwned :: "Game \<Rightarrow> PlayerID \<Rightarrow> nat" where
  "numTilesOwned g p = length (filter (\<lambda>t. tileOwner g t = Some p) (mapTiles g))"

text \<open>Modelled from the spec: \<^verbatim>\<open>Game.setFallout\<close>, the fallout flag of a tile.\<close>

definition setFallout :: "TileRef \<Rightarrow> bool \<Rightarrow> Game \<Rightarrow> Game" where
  "setFallout t v g = g\<lparr>falloutTiles := (falloutTiles g)(t := v)\<rparr>"

text \<open>Modelled from the spec: whether \<^verbatim>\<open>incomingAllianceRequests()\<close> of the recipient holds a request
  of the requestor (sections 3 and 6).\<close>

definition incomingAllianceRequest :: "Game \<Rightarrow> PlayerID \<Rightarrow> PlayerID \<Rightarrow> bool" where
  "incomingAllianceRequest g recipient requestor = ((requestor, recipient) \<in> requestRel g)"

text \<open>Modelled from the spec: \<^verbatim>\<open>AllianceRequest.reject()\<close>: the request is resolved and gone.\<close>

definition rejectRequest :: "PlayerID \<Rightarrow> PlayerID \<Rightarrow> Game \<Rightarrow> Game" where
  "rejectRequest requestor recipient g =
     logEvent (RejectAllianceRequest requestor recipient)
       (g\<lparr>requestRel := requestRel g - {(requestor, recipient)}\<rparr>)"

text \<open>Modelled from the spec: \<^verbatim>\<open>Player.allianceWith\<close>; an alliance is a symmetric relation, looked up
  in both directions (\<open>True\<close> is an alliance, \<open>False\<close> is \<^verbatim>\<open>null\<close>).\<close>

definition allianceWith :: "Game \<Rightarrow> PlayerID \<Rightarrow> PlayerID \<Rightarrow> bool" where
  "allianceWith g a b = ((a, b) \<in> allianceRel g \<or> (b, a) \<in> allianceRel g)"

text \<open>Modelled from the spec: \<^verbatim>\<open>Player.breakAlliance\<close>: the alliance is gone, for both parties.\<close>

definition breakAlliance :: "PlayerID \<Rightarrow> PlayerID \<Rightarrow> Game \<Rightarrow> Game" where
  "breakAlliance a b g =
     logEvent (BreakAlliance a b) (g\<lparr>allianceRel := allianceRel g - {(a, b), (b, a)}\<rparr>)"

text \<open>Modelled from the spec: \<^verbatim>\<open>Player.updateRelation(other, delta)\<close>; the adjustment of the
  relation score is reported.\<close>

definition updateRelation :: "PlayerID \<Rightarrow> PlayerID \<Rightarrow> int \<Rightarrow> Game \<Rightarrow> Game" where
  "updateRelation p other delta g = logEvent (UpdateRelation p other delta) g"

text \<open>Modelled from the spec: \<^verbatim>\<open>new ParabolaPathFinder(mg)\<close>, a planner without a path yet.\<close>

definition newPathFinder :: PathFinder where
  "newPathFinder = \<lparr>pfTiles = [], pfCursor = 0\<rparr>"

text \<open>Modelled from the spec: \<^verbatim>\<open>computeControlPoints\<close> lays out the path from source to
  destination for a speed, curved or direct (section 4.3, launch step 2).\<close>

definition computeControlPoints ::
  "Env \<Rightarrow> Game \<Rightarrow> TileRef \<Rightarrow> TileRef \<Rightarrow> int \<Rightarrow> bool \<Rightarrow> PathFinder" where
  "computeControlPoints env g a b sp curved =
     \<lparr>pfTiles = curveTiles env g a b sp curved, pfCursor = 0\<rparr>"

text \<open>Modelled from the spec: \<^verbatim>\<open>nextTile(speed)\<close> advances the cursor by the speed; \<open>None\<close> is the
  \<^verbatim>\<open>true\<close> that signals arrival.\<close>

definition nextTile :: "PathFinder \<Rightarrow> int \<Rightarrow> TileRef option \<times> PathFinder" where
  "nextTile pf sp =
     (let c = pfCursor pf + nat sp
      in if c < length (pfTiles pf) then (Some (pfTiles pf ! c), pf\<lparr>pfCursor := c\<rparr>)
         else (None, pf\<lparr>pfCursor := c\<rparr>))"

text \<open>Modelled from the spec: \<^verbatim>\<open>currentIndex()\<close>, the position of the cursor.\<close>

definition currentIndex :: "PathFinder \<Rightarrow> nat" where
  "currentIndex pf = pfCursor pf"

text \<open>Modelled from the spec: \<^verbatim>\<open>allTiles()\<close>, the tiles of the path.\<close>

definition allTiles :: "PathFinder \<Rightarrow> TileRef list" where
  "allTiles pf = pfTiles pf"

section \<open>The weapon strike execution\<close>

text \<open>The methods of \<^verbatim>\<open>NukeExecution\<close> follow, in the order of the file, after its one constant.\<close>

definition SPRITE_RADIUS :: int where
  "SPRITE_RADIUS = 16"

text \<open>\<^verbatim>\<open>init(mg, ticks)\<close> (lines 35 to 41).\<close>

definition init :: "Env \<Rightarrow> Game \<Rightarrow> NukeExecution \<Rightarrow> NukeExecution" where
  "init env g e =
     (let e1 = e\<lparr>mg := True\<rparr>;
          e2 = (if speed e1 = - 1 then e1\<lparr>speed := defaultNukeSpeed env\<rparr> else e1)
      in e2\<lparr>pathFinder := Some newPathFinder\<rparr>)"

text \<open>\<^verbatim>\<open>target()\<close>: \<open>None\<close> is \<^verbatim>\<open>null\<close> (not initialized yet), \<open>Some None\<close> is
  \<^verbatim>\<open>TerraNullius\<close>.\<close>

definition target :: "NukeExecution \<Rightarrow> Game \<Rightarrow> PlayerID option option" where
  "target e g = (if \<not> mg e then None else Some (tileOwner g (dst e)))"

text \<open>\<^verbatim>\<open>tilesInRange()\<close>: the map from tile to weight, in insertion order. Reading the
  configuration through an unbound \<^verbatim>\<open>this.mg\<close> is a \<^verbatim>\<open>TypeError\<close>.\<close>

definition tilesInRange :: "Env \<Rightarrow> NukeExecution \<Rightarrow> Game \<Rightarrow> Error + (TileRef \<times> rat) list" where
  "tilesInRange env e g =
     (case nuke e of
        None \<Rightarrow> Inl NotInitialized
      | Some u \<Rightarrow>
          if \<not> mg e then Inl TypeError
          else
            (let magnitude = nukeMagnitudes env (unitType (unitStore g u));
                 inner2 = fst magnitude * fst magnitude
             in Inr (map (\<lambda>(t, d2). (t, if d2 \<le> inner2 then 1 else 1 / 2))
                       (circleSearch g (dst e) (snd magnitude)))))"

text \<open>The filter of \<^verbatim>\<open>tilesToDestroy()\<close>; \<open>rand\<close> is the state of the generator, which
  \<^verbatim>\<open>||\<close> and \<^verbatim>\<open>&&\<close> consult only for a tile between the two radii.\<close>

definition destroyFilter ::
  "Env \<Rightarrow> Game \<Rightarrow> NukeExecution \<Rightarrow> int \<Rightarrow> int \<Rightarrow> TileRef \<Rightarrow> nat \<Rightarrow> bool \<times> nat" where
  "destroyFilter env g e inner2 outer2 n rand =
     (let d2 = euclideanDistSquared g (dst e) n
      in if d2 \<le> outer2 then (if d2 \<le> inner2 then (True, rand) else randChance env rand 2)
         else (False, rand))"

definition tilesToDestroy ::
  "Env \<Rightarrow> NukeExecution \<Rightarrow> Game \<Rightarrow> Error + (TileRef list \<times> NukeExecution)" where
  "tilesToDestroy env e g =
     (case tilesToDestroyCache e of
        Some c \<Rightarrow> Inr (c, e)
      | None \<Rightarrow>
          (case nuke e of
             None \<Rightarrow> Inl NotInitialized
           | Some u \<Rightarrow>
               if \<not> mg e then Inl TypeError
               else
                 (let magnitude = nukeMagnitudes env (unitType (unitStore g u));
                      rand = randSeed env (tickCount g);
                      inner2 = fst magnitude * fst magnitude;
                      outer2 = snd magnitude * snd magnitude;
                      c = fst (bfs g (dst e) (destroyFilter env g e inner2 outer2) rand)
                  in Inr (c, e\<lparr>tilesToDestroyCache := Some c\<rparr>))))"

text \<open>\<^verbatim>\<open>targetTile()\<close> and \<^verbatim>\<open>isInFlight()\<close> (lines 86 to 92).\<close>

definition targetTile :: "NukeExecution \<Rightarrow> TileRef" where
  "targetTile e = dst e"

definition isInFlight :: "NukeExecution \<Rightarrow> bool" where
  "isInFlight e = (nuke e \<noteq> None)"

text \<open>\<^verbatim>\<open>destroyInFlight()\<close> (lines 94 to 103).\<close>

definition destroyInFlight :: "NukeExecution \<Rightarrow> Game \<Rightarrow> NukeExecution \<times> Game" where
  "destroyInFlight e g =
     (if \<not> active e then (e, g)
      else
        (case nuke e of
           Some u \<Rightarrow> (e\<lparr>nuke := None, active := False\<rparr>, unitDelete u None g)
         | None \<Rightarrow> (e\<lparr>active := False\<rparr>, g)))"

text \<open>
  \<^verbatim>\<open>maybeBreakAlliances(inRange)\<close>. The first loop fills the map \<^verbatim>\<open>attacked\<close>, an
  association list in insertion order (\<open>AList.update\<close> is \<^verbatim>\<open>Map.set\<close>: it overwrites in
  place or appends); the second loop visits its entries, and \<open>breakAllianceStep\<close> is its
  body.
\<close>

fun attackedWeights ::
  "Game \<Rightarrow> (TileRef \<times> rat) list \<Rightarrow> (PlayerID \<times> rat) list \<Rightarrow> (PlayerID \<times> rat) list" where
  "attackedWeights g [] attacked = attacked"
| "attackedWeights g ((tile, weight) # rest) attacked =
     (case tileOwner g tile of
        None \<Rightarrow> attackedWeights g rest attacked
      | Some p \<Rightarrow>
          attackedWeights g rest
            (AList.update p
               ((case map_of attacked p of None \<Rightarrow> 0 | Some prev \<Rightarrow> prev) + weight) attacked))"

definition breakAllianceStep ::
  "Env \<Rightarrow> NukeExecution \<Rightarrow> UnitID \<Rightarrow> PlayerID \<times> rat \<Rightarrow> Game \<Rightarrow> Game" where
  "breakAllianceStep env e u entry g =
     (case entry of (attackedPlayer, totalWeight) \<Rightarrow>
        if totalWeight > nukeAllianceBreakThreshold env
           \<and> unitType (unitStore g u) \<noteq> MIRVWarhead
        then
          (let g1 = (if incomingAllianceRequest g attackedPlayer (player e)
                     then rejectRequest (player e) attackedPlayer g else g);
               g2 = (if allianceWith g1 (player e) attackedPlayer
                     then breakAlliance (player e) attackedPlayer g1 else g1)
           in if attackedPlayer \<noteq> player e
              then updateRelation attackedPlayer (player e) (- 100) g2 else g2)
        else g)"

definition maybeBreakAlliances ::
  "Env \<Rightarrow> NukeExecution \<Rightarrow> (TileRef \<times> rat) list \<Rightarrow> Game \<Rightarrow> Error + Game" where
  "maybeBreakAlliances env e inRange g =
     (case nuke e of
        None \<Rightarrow> Inl NotInitialized
      | Some u \<Rightarrow>
          if \<not> mg e then Inl TypeError
          else Inr (fold (breakAllianceStep env e u) (attackedWeights g inRange []) g))"

text \<open>\<^verbatim>\<open>getNuke()\<close> (lines 231 to 233).\<close>

definition getNuke :: "NukeExecution \<Rightarrow> UnitID option" where
  "getNuke e = nuke e"

text \<open>\<^verbatim>\<open>isTargetable\<close> (lines 250 to 261).\<close>

definition isTargetable :: "NukeExecution \<Rightarrow> Game \<Rightarrow> TileRef \<Rightarrow> TileRef \<Rightarrow> int \<Rightarrow> bool" where
  "isTargetable e g targetT nukeT targetRangeSquared =
     (euclideanDistSquared g nukeT targetT < targetRangeSquared
      \<or> (case src e of
            None \<Rightarrow> False
          | Some s \<Rightarrow> euclideanDistSquared g s nukeT < targetRangeSquared))"

text \<open>\<^verbatim>\<open>getTrajectory(target)\<close> (lines 235 to 248), with the planner \<^verbatim>\<open>this.pathFinder\<close> as
  argument.\<close>

definition getTrajectory ::
  "Env \<Rightarrow> NukeExecution \<Rightarrow> Game \<Rightarrow> PathFinder \<Rightarrow> TileRef \<Rightarrow> (TileRef \<times> bool) list" where
  "getTrajectory env e g pf tgt =
     (let targetRangeSquared = defaultNukeTargetableRange env * defaultNukeTargetableRange env
      in map (\<lambda>tile. (tile, isTargetable e g tgt tile targetRangeSquared)) (allTiles pf))"

text \<open>\<^verbatim>\<open>updateNukeTargetable()\<close> (lines 263 to 273).\<close>

definition updateNukeTargetable :: "Env \<Rightarrow> NukeExecution \<Rightarrow> Game \<Rightarrow> Error + Game" where
  "updateNukeTargetable env e g =
     (case nuke e of
        None \<Rightarrow> Inr g
      | Some u \<Rightarrow>
          (case unitTargetTile (unitStore g u) of
             None \<Rightarrow> Inr g
           | Some targetT \<Rightarrow>
               if \<not> mg e then Inl TypeError
               else
                 (let targetRangeSquared =
                        defaultNukeTargetableRange env * defaultNukeTargetableRange env
                  in Inr (updateUnit u
                       (\<lambda>x. x\<lparr>unitTargetable :=
                          isTargetable e g targetT (unitTile (unitStore g u)) targetRangeSquared\<rparr>)
                       g))))"

text \<open>\<^verbatim>\<open>detonate()\<close>. \<open>destroyTile\<close> is the body of its loop over the destroyed tiles,
  \<open>collateral\<close> the body of its loop over the units of the game.\<close>

definition destroyTile :: "Env \<Rightarrow> NukeExecution \<Rightarrow> rat \<Rightarrow> TileRef \<Rightarrow> Game \<Rightarrow> Game" where
  "destroyTile env e maxTr tile g =
     (let g1 =
        (case tileOwner g tile of
           None \<Rightarrow> g
         | Some p \<Rightarrow>
             (let ga = relinquish p tile g;
                  gb = removeTroops p
                         (nukeDeathFactor env (nukeType e) (playerTroops ga p)
                            (numTilesOwned ga p) maxTr) ga;
                  gc = gb\<lparr>attackTroops :=
                         map (\<lambda>(attacker, tr).
                                if attacker = p
                                then (attacker, tr - nukeDeathFactor env (nukeType e) tr
                                                       (numTilesOwned gb p) maxTr)
                                else (attacker, tr))
                           (attackTroops gb)\<rparr>
              in fold (\<lambda>ship g'.
                         updateUnit ship
                           (\<lambda>x. x\<lparr>unitTroops :=
                              unitTroops x - nukeDeathFactor env (nukeType e) (unitTroops x)
                                               (numTilesOwned g' p) maxTr\<rparr>) g')
                   (playerUnits gc p TransportShip) gc))
      in if isLand g1 tile then setFallout tile True g1 else g1)"

definition collateral :: "NukeExecution \<Rightarrow> int \<Rightarrow> UnitID \<Rightarrow> Game \<Rightarrow> Game" where
  "collateral e outer2 unit g =
     (if unitType (unitStore g unit) \<noteq> AtomBomb
         \<and> unitType (unitStore g unit) \<noteq> HydrogenBomb
         \<and> unitType (unitStore g unit) \<noteq> MIRVWarhead
         \<and> unitType (unitStore g unit) \<noteq> MIRV
      then (if euclideanDistSquared g (dst e) (unitTile (unitStore g unit)) < outer2
            then unitDelete unit (Some (player e)) g else g)
      else g)"

definition redrawBuildings :: "NukeExecution \<Rightarrow> int \<Rightarrow> Game \<Rightarrow> Game" where
  "redrawBuildings e rng g =
     (let rangeSquared = rng * rng
      in fold (\<lambda>unit g'.
                 if isStructureType (unitType (unitStore g' unit))
                 then (if euclideanDistSquared g' (dst e) (unitTile (unitStore g' unit))
                          < rangeSquared
                       then logEvent (UnitTouch unit) g' else g')
                 else g')
           (units g) g)"

definition detonate :: "Env \<Rightarrow> NukeExecution \<Rightarrow> Game \<Rightarrow> Outcome \<times> NukeExecution \<times> Game" where
  "detonate env e g =
     (case nuke e of
        None \<Rightarrow> (Threw NotInitialized, e, g)
      | Some u \<Rightarrow>
          (case target e g of
             None \<Rightarrow> (Threw TypeError, e, g)
           | Some tgt \<Rightarrow>
               (let magnitude = nukeMagnitudes env (unitType (unitStore g u))
                in case tilesToDestroy env e g of
                     Inl err \<Rightarrow> (Threw err, e, g)
                   | Inr (toDestroy, e1) \<Rightarrow>
                       (let maxTr = (case tgt of Some p \<Rightarrow> maxTroops env g p | None \<Rightarrow> 1);
                            g1 = fold (destroyTile env e1 maxTr) toDestroy g;
                            outer2 = snd magnitude * snd magnitude;
                            g2 = fold (collateral e1 outer2) (units g1) g1;
                            g3 = redrawBuildings e1 (snd magnitude + SPRITE_RADIUS) g2;
                            e2 = e1\<lparr>active := False\<rparr>;
                            g4 = updateUnit u (\<lambda>x. x\<lparr>unitReachedTarget := True\<rparr>) g3;
                            g5 = unitDelete u None g4
                        in (Returned, e2,
                            logEvent (BombLand (player e2) tgt (unitType (unitStore g5 u)))
                              g5)))))"

text \<open>
  \<^verbatim>\<open>tick(ticks)\<close>, in its two halves. \<open>tickLaunch\<close> is the branch \<^verbatim>\<open>this.nuke === null\<close>
  (lines 150 to 203), \<open>tickInFlight\<close> the rest (lines 206 to 228), for the Unit \<open>u\<close>
  that \<^verbatim>\<open>this.nuke\<close> refers to. An unbound \<^verbatim>\<open>this.pathFinder\<close> or \<^verbatim>\<open>this.mg\<close> (no
  \<^verbatim>\<open>init\<close> yet) makes the first access to it a \<^verbatim>\<open>TypeError\<close>. The decrement
  \<^verbatim>\<open>this.waitTicks--\<close> is a subtraction of doubles, so its result is rounded. Three steps of the
  launch have a definition of their own: \<open>launchBreakAlliances\<close> (lines 167 to 169),
  \<open>launchAnnounce\<close> (lines 170 to 194) and \<open>launchSiloCooldown\<close> (lines 196 to 202).
\<close>

definition launchBreakAlliances :: "Env \<Rightarrow> UnitID \<Rightarrow> NukeExecution \<Rightarrow> Game \<Rightarrow> Error + Game" where
  "launchBreakAlliances env u e g =
     (if unitType (unitStore g u) \<noteq> MIRVWarhead
      then (case tilesInRange env e g of
              Inl err \<Rightarrow> Inl err
            | Inr inRange \<Rightarrow> maybeBreakAlliances env e inRange g)
      else Inr g)"

definition launchAnnounce :: "UnitID \<Rightarrow> NukeExecution \<Rightarrow> Game \<Rightarrow> Game" where
  "launchAnnounce u e g =
     (if hasOwner g (dst e) then
        (let tgt = tileOwner g (dst e);
             ga =
               (case tgt of
                  None \<Rightarrow> g
                | Some tp \<Rightarrow>
                    if nukeType e = AtomBomb then
                      logEvent (DisplayIncomingUnit u
                        (playerName g (player e) @ '' - atom bomb inbound'') NUKE_INBOUND tp) g
                    else if nukeType e = HydrogenBomb then
                      logEvent (DisplayIncomingUnit u
                        (playerName g (player e) @ '' - hydrogen bomb inbound'')
                        HYDROGEN_BOMB_INBOUND tp) g
                    else g)
         in logEvent (BombLaunch (player e) tgt (nukeType e)) ga)
      else g)"

definition launchSiloCooldown :: "TileRef \<Rightarrow> NukeExecution \<Rightarrow> Game \<Rightarrow> Game" where
  "launchSiloCooldown spawn e g =
     (case find (\<lambda>silo. unitTile (unitStore g silo) = spawn)
             (playerUnits g (player e) MissileSilo) of
        Some silo \<Rightarrow> logEvent (SiloLaunch silo) g
      | None \<Rightarrow> g)"

definition tickLaunch :: "Env \<Rightarrow> NukeExecution \<Rightarrow> Game \<Rightarrow> Outcome \<times> NukeExecution \<times> Game" where
  "tickLaunch env e g =
     (case canBuild env g (player e) (nukeType e) (dst e) of
        None \<Rightarrow> (Returned, e\<lparr>active := False\<rparr>, logEvent (ConsoleWarn ''cannot build Nuke'') g)
      | Some spawn \<Rightarrow>
          (let e1 = e\<lparr>src := Some spawn\<rparr>
           in if pathFinder e1 = None then (Threw TypeError, e1, g)
              else
                (let pf = computeControlPoints env g spawn (dst e1) (speed e1)
                            (nukeType e1 \<noteq> MIRVWarhead);
                     e2 = e1\<lparr>pathFinder := Some pf\<rparr>
                 in if \<not> mg e2 then (Threw TypeError, e2, g)
                    else
                      (case buildUnit (player e2) (nukeType e2) spawn (Some (dst e2))
                              (getTrajectory env e2 g pf (dst e2)) g of
                         (u, g1) \<Rightarrow>
                           (let e3 = e2\<lparr>nuke := Some u\<rparr>
                            in case launchBreakAlliances env u e3 g1 of
                                 Inl err \<Rightarrow> (Threw err, e3, g1)
                               | Inr g2 \<Rightarrow>
                                   (Returned, e3,
                                    launchSiloCooldown spawn e3 (launchAnnounce u e3 g2)))))))"

definition tickInFlight ::
  "Env \<Rightarrow> UnitID \<Rightarrow> NukeExecution \<Rightarrow> Game \<Rightarrow> Outcome \<times> NukeExecution \<times> Game" where
  "tickInFlight env u e g =
     (if \<not> unitActive (unitStore g u)
      then (Returned, e\<lparr>active := False\<rparr>,
            logEvent (ConsoleLog ''Nuke destroyed before reaching target'') g)
      else if waitTicks e > 0
      then (Returned, e\<lparr>waitTicks := roundToDouble (waitTicks e - 1)\<rparr>, g)
      else
        (case pathFinder e of
           None \<Rightarrow> (Threw TypeError, e, g)
         | Some pf \<Rightarrow>
             (case nextTile pf (speed e) of
                (None, pf1) \<Rightarrow> detonate env (e\<lparr>pathFinder := Some pf1\<rparr>) g
              | (Some nextT, pf1) \<Rightarrow>
                  (let e1 = e\<lparr>pathFinder := Some pf1\<rparr>
                   in case updateNukeTargetable env e1 g of
                        Inl err \<Rightarrow> (Threw err, e1, g)
                      | Inr g1 \<Rightarrow>
                          (Returned, e1,
                           updateUnit u (\<lambda>x. x\<lparr>unitTrajectoryIndex := currentIndex pf1\<rparr>)
                             (updateUnit u (\<lambda>x. x\<lparr>unitTile := nextT\<rparr>) g1))))))"

definition tick :: "Env \<Rightarrow> nat \<Rightarrow> NukeExecution \<Rightarrow> Game \<Rightarrow> Outcome \<times> NukeExecution \<times> Game" where
  "tick env ticks e g =
     (case nuke e of None \<Rightarrow> tickLaunch env e g | Some u \<Rightarrow> tickInFlight env u e g)"

text \<open>\<^verbatim>\<open>owner()\<close>, \<^verbatim>\<open>isActive()\<close> and \<^verbatim>\<open>activeDuringSpawnPhase()\<close> (lines 372 to 382).\<close>

definition owner :: "NukeExecution \<Rightarrow> PlayerID" where
  "owner e = player e"

definition isActive :: "NukeExecution \<Rightarrow> bool" where
  "isActive e = active e"

definition activeDuringSpawnPhase :: "NukeExecution \<Rightarrow> bool" where
  "activeDuringSpawnPhase e = False"

section \<open>Scheduler and alliance acceptance\<close>

text \<open>The scheduler and the acceptance of an alliance belong to the game, outside
  \<^verbatim>\<open>NukeExecution.ts\<close>; both are modelled after the specification. The scheduler holds the
  executions in insertion order.\<close>

text \<open>Modelled from the spec: \<^verbatim>\<open>addExecution(e)\<close> appends the execution and does not run
  \<^verbatim>\<open>init\<close> (section 4.2).\<close>

definition addExecution :: "NukeExecution \<Rightarrow> NukeExecution list \<Rightarrow> NukeExecution list" where
  "addExecution e execs = execs @ [e]"

text \<open>Modelled from the spec: the first step of a pass, \<^verbatim>\<open>init\<close> for each execution not yet
  initialized (section 4.2).\<close>

definition initAll :: "Env \<Rightarrow> Game \<Rightarrow> NukeExecution list \<Rightarrow> NukeExecution list" where
  "initAll env g execs = map (\<lambda>e. if mg e then e else init env g e) execs"

text \<open>Modelled from the spec: the second step of a pass, \<^verbatim>\<open>tick\<close> on the executions in
  insertion order (section 4.2). An inactive execution is passed over, by the guarantee of
  section 5: \<^emph>\<open>once isActive() is false the scheduler guarantees no further tick calls will
  occur\<close>. An exception of a \<^verbatim>\<open>tick\<close> ends the pass and surfaces, the executions being as
  they are at that point.\<close>

fun tickAll ::
  "Env \<Rightarrow> NukeExecution list \<Rightarrow> Game \<Rightarrow> Outcome \<times> NukeExecution list \<times> Game" where
  "tickAll env [] g = (Returned, [], g)"
| "tickAll env (e # es) g =
     (if isActive e then
        (case tick env (tickCount g) e g of
           (Returned, e', g') \<Rightarrow>
             (case tickAll env es g' of (out, es', g'') \<Rightarrow> (out, e' # es', g''))
         | (Threw err, e', g') \<Rightarrow> (Threw err, e' # es, g'))
      else (case tickAll env es g of (out, es', g') \<Rightarrow> (out, e # es', g')))"

text \<open>Modelled from the spec: \<^verbatim>\<open>executeNextTick()\<close> (section 4.2): \<^verbatim>\<open>init\<close>, then \<^verbatim>\<open>tick\<close>, then
  the removal of every execution whose \<^verbatim>\<open>isActive()\<close> is false. The pass advances the tick
  counter.\<close>

definition executeNextTick ::
  "Env \<Rightarrow> NukeExecution list \<times> Game \<Rightarrow> Outcome \<times> NukeExecution list \<times> Game" where
  "executeNextTick env sg =
     (case sg of (execs, g) \<Rightarrow>
        (case tickAll env (initAll env g execs) g of
           (Returned, execs', g') \<Rightarrow>
             (Returned, filter isActive execs', g'\<lparr>tickCount := tickCount g' + 1\<rparr>)
         | (Threw err, execs', g') \<Rightarrow> (Threw err, execs', g')))"

text \<open>Modelled from the spec: \<open>n\<close> passes of the scheduler in a row, up to the first
  exception.\<close>

fun executeTicks ::
  "Env \<Rightarrow> nat \<Rightarrow> NukeExecution list \<times> Game \<Rightarrow> Outcome \<times> NukeExecution list \<times> Game" where
  "executeTicks env 0 sg = (Returned, sg)"
| "executeTicks env (Suc n) sg =
     (case executeNextTick env sg of
        (Returned, sg') \<Rightarrow> executeTicks env n sg'
      | (Threw err, sg') \<Rightarrow> (Threw err, sg'))"

text \<open>Modelled from the spec: a strike between two players is owned by one of them and targets
  a tile owned by the other (section 4.5).\<close>

definition strikeBetween :: "Game \<Rightarrow> PlayerID \<Rightarrow> PlayerID \<Rightarrow> NukeExecution \<Rightarrow> bool" where
  "strikeBetween g p1 p2 e =
     ((owner e = p1 \<and> tileOwner g (targetTile e) = Some p2)
      \<or> (owner e = p2 \<and> tileOwner g (targetTile e) = Some p1))"

text \<open>Modelled from the spec: on acceptance every scheduled execution is examined, and a strike
  between the two players is destroyed, through \<^verbatim>\<open>destroyInFlight\<close> (section 4.5).\<close>

fun destroyNukesBetween ::
  "PlayerID \<Rightarrow> PlayerID \<Rightarrow> NukeExecution list \<Rightarrow> Game \<Rightarrow> NukeExecution list \<times> Game" where
  "destroyNukesBetween p1 p2 [] g = ([], g)"
| "destroyNukesBetween p1 p2 (e # es) g =
     (case (if strikeBetween g p1 p2 e then destroyInFlight e g else (e, g)) of
        (e', g') \<Rightarrow>
          (case destroyNukesBetween p1 p2 es g' of (es', g'') \<Rightarrow> (e' # es', g'')))"

text \<open>Modelled from the spec: the acceptance of an alliance request destroys the strikes
  between the two players and resolves the request into an alliance (sections 3 and 4.5).\<close>

definition acceptAlliance ::
  "PlayerID \<Rightarrow> PlayerID \<Rightarrow> NukeExecution list \<times> Game \<Rightarrow> NukeExecution list \<times> Game" where
  "acceptAlliance requestor recipient sg =
     (case sg of (execs, g) \<Rightarrow>
        (case destroyNukesBetween requestor recipient execs g of
           (execs', g') \<Rightarrow>
             (execs', g'\<lparr>requestRel := requestRel g' - {(requestor, recipient)},
                         allianceRel := allianceRel g' \<union> {(requestor, recipient)}\<rparr>)))"

text \<open>The operations an execution can undergo, for statements about every sequence of
  them: its three state-changing methods (launch refusal, flight and detonation are
  \<^verbatim>\<open>tick\<close>), and any change of the game by somebody else.\<close>

datatype Operation = OpInit | OpTick nat | OpDestroyInFlight | OpExternal "Game \<Rightarrow> Game"

fun applyOperation :: "Env \<Rightarrow> Operation \<Rightarrow> NukeExecution \<times> Game \<Rightarrow> NukeExecution \<times> Game" where
  "applyOperation env OpInit (e, g) = (init env g e, g)"
| "applyOperation env (OpTick t) (e, g) = snd (tick env t e g)"
| "applyOperation env OpDestroyInFlight (e, g) = destroyInFlight e g"
| "applyOperation env (OpExternal f) (e, g) = (e, f g)"

definition applyOperations ::
  "Env \<Rightarrow> Operation list \<Rightarrow> NukeExecution \<times> Game \<Rightarrow> NukeExecution \<times> Game" where
  "applyOperations env ops eg = fold (applyOperation env) ops eg"

section \<open>The blast estimate and its consequences, in the words of the specification\<close>

text \<open>
  For the statements on alliance breaking (sections 4.3 step 4 and 4.4): the weight of a
  tile of the circular search is 1.0 within the inner radius and 0.5 between the inner and
  the outer radius; the accumulated blast weight of a player is the sum over the tiles of
  the search that the player owns; a player is attacked when they own a tile of the
  search. What happens to an attacked player beyond the threshold is, in this order: a
  pending request from the attacker to them is rejected, an alliance between the two is
  broken, and their relation to the attacker is degraded by 100 unless they are the
  attacker.
\<close>

definition tileWeight :: "Env \<Rightarrow> UnitType \<Rightarrow> int \<Rightarrow> rat" where
  "tileWeight env ty d2 =
     (if d2 \<le> fst (nukeMagnitudes env ty) * fst (nukeMagnitudes env ty) then 1 else 1 / 2)"

definition blastWeight :: "Env \<Rightarrow> Game \<Rightarrow> TileRef \<Rightarrow> UnitType \<Rightarrow> PlayerID \<Rightarrow> rat" where
  "blastWeight env g d ty p =
     sum_list (map (\<lambda>(t, d2). if tileOwner g t = Some p then tileWeight env ty d2 else 0)
                 (circleSearch g d (snd (nukeMagnitudes env ty))))"

definition ownsTileInBlast :: "Env \<Rightarrow> Game \<Rightarrow> TileRef \<Rightarrow> UnitType \<Rightarrow> PlayerID \<Rightarrow> bool" where
  "ownsTileInBlast env g d ty p =
     (Some p \<in> set (map (\<lambda>(t, d2). tileOwner g t) (circleSearch g d (snd (nukeMagnitudes env ty)))))"

definition allianceBreakEvents :: "Game \<Rightarrow> PlayerID \<Rightarrow> PlayerID \<Rightarrow> Event list" where
  "allianceBreakEvents g attacker p =
     (if (attacker, p) \<in> requestRel g then [RejectAllianceRequest attacker p] else [])
     @ (if allianceWith g attacker p then [BreakAlliance attacker p] else [])
     @ (if p \<noteq> attacker then [UpdateRelation p attacker (- 100)] else [])"

text \<open>The entries of the map \<^verbatim>\<open>attacked\<close> beyond the threshold, in the order of the map.\<close>

definition thresholdHits :: "Env \<Rightarrow> (PlayerID \<times> rat) list \<Rightarrow> PlayerID list" where
  "thresholdHits env entries =
     map fst (filter (\<lambda>(p, w). nukeAllianceBreakThreshold env < w) entries)"

text \<open>The kinds of events: those of the diplomacy subsystem, and those that tell of a
  launch (the alert on the display channel, the launch record of the statistics sink).\<close>

fun isDiplomacy :: "Event \<Rightarrow> bool" where
  "isDiplomacy (RejectAllianceRequest a p) = True"
| "isDiplomacy (BreakAlliance a p) = True"
| "isDiplomacy (UpdateRelation p a d) = True"
| "isDiplomacy _ = False"

fun isAnnouncement :: "Event \<Rightarrow> bool" where
  "isAnnouncement (DisplayIncomingUnit u m k p) = True"
| "isAnnouncement (BombLaunch a p ty) = True"
| "isAnnouncement _ = False"

text \<open>
  Two runs of the scheduler agree: if the first returns, they are the same in outcome,
  scheduled executions and game; if it ends in an exception, the second ends in the same
  exception with the same game.
\<close>

definition sameRun ::
  "Outcome \<times> NukeExecution list \<times> Game \<Rightarrow> Outcome \<times> NukeExecution list \<times> Game \<Rightarrow> bool" where
  "sameRun r1 r2 =
     (if fst r1 = Returned then r1 = r2
      else fst r2 = fst r1 \<and> snd (snd r2) = snd (snd r1))"

section \<open>Example data\<close>

text \<open>
  A map of five by five tiles: tile \<open>5 * y + x\<close> is at column \<open>x\<close> and row \<open>y\<close>. Player 1
  owns the corner tile 0, player 2 the centre tile 12 and tile 13 beside it, player 3 the
  opposite corner 24. Every weapon class has inner radius 1 and outer radius 2; any
  positive blast weight breaks an alliance; player 1 can launch from tile 0 and nobody
  else can launch at all.
\<close>

definition exampleEnv :: Env where
  "exampleEnv =
     \<lparr>defaultNukeSpeed = 1,
      nukeMagnitudes = (\<lambda>ty. (1, 2)),
      nukeAllianceBreakThreshold = 0,
      defaultNukeTargetableRange = 1,
      maxTroops = (\<lambda>g p. 1000),
      nukeDeathFactor = (\<lambda>ty tr n mx. tr / 2),
      canBuild = (\<lambda>g p ty t. if p = 1 then Some 0 else None),
      curveTiles = (\<lambda>g a b sp curved. [a, 6, b]),
      randSeed = (\<lambda>t. t),
      randChance = (\<lambda>s odds. (s mod odds = 0, s + 1))\<rparr>"

definition exampleBomb :: UnitImpl where
  "exampleBomb =
     \<lparr>unitType = AtomBomb, unitOwner = 1, unitTile = 0, unitActive = True,
      unitTargetTile = Some 12, unitTrajectory = [(0, True), (6, False), (12, True)],
      unitTrajectoryIndex = 0, unitTargetable = True, unitReachedTarget = False,
      unitTroops = 0\<rparr>"

definition exampleGame :: Game where
  "exampleGame =
     \<lparr>mapWidth = 5, mapHeight = 5,
      tileOwner = (\<lambda>t. if t = 0 then Some 1 else if t = 12 \<or> t = 13 then Some 2
                        else if t = 24 then Some 3 else None),
      landTiles = (\<lambda>t. True),
      falloutTiles = (\<lambda>t. False),
      tickCount = 7,
      unitStore = (\<lambda>u. exampleBomb\<lparr>unitActive := False\<rparr>),
      unitIds = [],
      playerTroops = (\<lambda>p. 100),
      playerName = (\<lambda>p. if p = 1 then ''player1'' else if p = 2 then ''player2''
                         else ''player3''),
      attackTroops = [],
      allianceRel = {},
      requestRel = {},
      eventLog = []\<rparr>"

text \<open>A strike of player 1 on the centre tile, as queued; the same strike in flight, as
  Unit 1, with two ticks of launch delay left; the game holding that Unit.\<close>

definition exampleQueued :: NukeExecution where
  "exampleQueued = newNukeExecution AtomBomb 1 12 None (- 1) 0"

definition exampleFlying :: NukeExecution where
  "exampleFlying =
     \<lparr>active = True, mg = True, nuke = Some 1, tilesToDestroyCache = None,
      pathFinder = Some \<lparr>pfTiles = [0, 6, 12], pfCursor = 0\<rparr>,
      nukeType = AtomBomb, player = 1, dst = 12, src = Some 0, speed = 1, waitTicks = 2\<rparr>"

definition exampleFlight :: Game where
  "exampleFlight = exampleGame\<lparr>unitStore := (unitStore exampleGame)(1 := exampleBomb),
                               unitIds := [1]\<rparr>"

text \<open>A strike of player 3, who has no launch site; the game after the Unit in flight
  has been intercepted.\<close>

definition exampleBlocked :: NukeExecution where
  "exampleBlocked = newNukeExecution AtomBomb 3 12 None (- 1) 0"

definition exampleIntercepted :: Game where
  "exampleIntercepted = unitDelete 1 None exampleFlight"

text \<open>The strike of player 1, initialized, in a game where player 1 has asked player 2 for
  an alliance and an older alliance between them exists; the same strike as a warhead
  sub-munition.\<close>

definition exampleDiplomacy :: Game where
  "exampleDiplomacy = exampleGame\<lparr>allianceRel := {(2, 1)}, requestRel := {(1, 2)}\<rparr>"

definition exampleReady :: NukeExecution where
  "exampleReady = init exampleEnv exampleGame exampleQueued"

definition exampleWarhead :: NukeExecution where
  "exampleWarhead =
     init exampleEnv exampleGame (newNukeExecution MIRVWarhead 1 12 None (- 1) 0)"

text \<open>Another strike on the centre tile, by player 3 with Unit 4, in a game of the same
  map and tick where nobody owns a tile.\<close>

definition exampleOther :: NukeExecution where
  "exampleOther = exampleFlying\<lparr>player := 3, waitTicks := 0, nuke := Some 4\<rparr>"

definition exampleOtherGame :: Game where
  "exampleOtherGame =
     exampleGame\<lparr>tileOwner := (\<lambda>t. None),
                 unitStore := (unitStore exampleGame)(4 := exampleBomb\<lparr>unitOwner := 3\<rparr>),
                 unitIds := [4],
                 eventLog := [ConsoleLog ''elsewhere'']\<rparr>"

section \<open>Auxiliary facts\<close>

text \<open>The scheduler passes over an inactive execution: a run with it and a run without it
  agree, and what a returning pass leaves scheduled is active.\<close>

lemma init_active [simp]: "active (init env g e) = active e"
  by (simp add: init_def Let_def)

lemma tickAll_skips_inactive:
  assumes "\<not> active e"
  shows "\<exists>as bs out g1. tickAll env (xs @ e # ys) g = (out, as @ e # bs, g1)
            \<and> tickAll env (xs @ ys) g = (out, as @ bs, g1)"
proof (induction xs arbitrary: g)
  case Nil
  obtain out es' g' where r: "tickAll env ys g = (out, es', g')" by (cases "tickAll env ys g")
  with assms show ?case by (auto simp: isActive_def intro: exI [of _ "[]"])
next
  case (Cons x xs)
  show ?case
  proof (cases "isActive x")
    case False
    from Cons.IH [of g] obtain as bs out g1 where
      "tickAll env (xs @ e # ys) g = (out, as @ e # bs, g1)"
      "tickAll env (xs @ ys) g = (out, as @ bs, g1)" by blast
    with False show ?thesis by (auto intro: exI [of _ "x # as"])
  next
    case True
    obtain o1 x' g' where t: "tick env (tickCount g) x g = (o1, x', g')"
      by (cases "tick env (tickCount g) x g")
    show ?thesis
    proof (cases o1)
      case Returned
      from Cons.IH [of g'] obtain as bs out g1 where
        "tickAll env (xs @ e # ys) g' = (out, as @ e # bs, g1)"
        "tickAll env (xs @ ys) g' = (out, as @ bs, g1)" by blast
      with True t Returned show ?thesis by (auto intro: exI [of _ "x' # as"])
    next
      case (Threw err)
      with True t show ?thesis by (auto intro: exI [of _ "x' # xs"])
    qed
  qed
qed

lemma executeNextTick_skips_inactive:
  assumes "\<not> active e"
  shows "sameRun (executeNextTick env (xs @ e # ys, g)) (executeNextTick env (xs @ ys, g))"
proof -
  let ?e = "if mg e then e else init env g e"
  have inact: "\<not> active ?e" using assms by simp
  have split: "initAll env g (xs @ e # ys) = initAll env g xs @ ?e # initAll env g ys"
    "initAll env g (xs @ ys) = initAll env g xs @ initAll env g ys"
    by (simp_all add: initAll_def)
  from tickAll_skips_inactive [OF inact, of env "initAll env g xs" "initAll env g ys" g]
  obtain as bs out g1 where
    "tickAll env (initAll env g (xs @ e # ys)) g = (out, as @ ?e # bs, g1)"
    "tickAll env (initAll env g (xs @ ys)) g = (out, as @ bs, g1)"
    unfolding split by blast
  with inact show ?thesis
    by (cases out) (simp_all add: executeNextTick_def sameRun_def isActive_def)
qed

lemma executeNextTick_all_active:
  "executeNextTick env sg = (Returned, s', g') \<Longrightarrow> \<forall>x \<in> set s'. isActive x"
  by (auto simp: executeNextTick_def split: prod.splits Outcome.splits)

lemma executeTicks_skips_inactive:
  assumes "\<not> active e" and "0 < n"
  shows "sameRun (executeTicks env n (xs @ e # ys, g)) (executeTicks env n (xs @ ys, g))"
proof -
  from assms(2) obtain m where n: "n = Suc m" by (cases n) auto
  have s: "sameRun (executeNextTick env (xs @ e # ys, g)) (executeNextTick env (xs @ ys, g))"
    by (rule executeNextTick_skips_inactive [OF assms(1)])
  obtain o1 sg1 where r1: "executeNextTick env (xs @ e # ys, g) = (o1, sg1)"
    by (cases "executeNextTick env (xs @ e # ys, g)")
  obtain o2 sg2 where r2: "executeNextTick env (xs @ ys, g) = (o2, sg2)"
    by (cases "executeNextTick env (xs @ ys, g)")
  show ?thesis
  proof (cases o1)
    case Returned
    with s r1 r2 have "o2 = Returned" "sg2 = sg1" by (auto simp: sameRun_def)
    with Returned r1 r2 show ?thesis by (simp add: n sameRun_def)
  next
    case (Threw err)
    with s r1 r2 have "o2 = Threw err" "snd sg2 = snd sg1" by (auto simp: sameRun_def)
    with Threw r1 r2 show ?thesis by (simp add: n sameRun_def)
  qed
qed

lemma executeTicks_all_active:
  "0 < n \<Longrightarrow> executeTicks env n sg = (Returned, s', g') \<Longrightarrow> \<forall>x \<in> set s'. isActive x"
proof (induction n arbitrary: sg)
  case 0
  then show ?case by simp
next
  case (Suc n)
  obtain o1 s1 g1 where r: "executeNextTick env sg = (o1, s1, g1)"
    by (cases "executeNextTick env sg")
  show ?case
  proof (cases o1)
    case Returned
    show ?thesis
    proof (cases n)
      case 0
      with Suc.prems r Returned show ?thesis
        using executeNextTick_all_active [of env sg s' g'] by simp
    next
      case (Suc m)
      with Suc.prems r Returned Suc.IH [of "(s1, g1)"] show ?thesis by simp
    qed
  next
    case (Threw err)
    with Suc.prems r show ?thesis by simp
  qed
qed


lemma destroyInFlight_tileOwner:
  "destroyInFlight e g = (e', g') \<Longrightarrow> tileOwner g' = tileOwner g"
  by (auto simp: destroyInFlight_def unitDelete_def updateUnit_def split: option.splits if_splits)

lemma destroyNukesBetween_skips_queued:
  assumes "nuke e = None" and "strikeBetween g p1 p2 e"
  shows "\<exists>xs' ys' g1. destroyNukesBetween p1 p2 (xs @ e # ys) g = (xs' @ e\<lparr>active := False\<rparr> # ys', g1)
           \<and> destroyNukesBetween p1 p2 (xs @ ys) g = (xs' @ ys', g1)"
  using assms(2)
proof (induction xs arbitrary: g)
  case Nil
  obtain ys' g1 where r: "destroyNukesBetween p1 p2 ys g = (ys', g1)"
    by (cases "destroyNukesBetween p1 p2 ys g")
  have "destroyInFlight e g = (e\<lparr>active := False\<rparr>, g)"
    using assms(1) by (cases "active e") (simp_all add: destroyInFlight_def)
  with Nil r show ?case by (auto intro: exI [of _ "[]"])
next
  case (Cons x xs)
  obtain x' g' where x: "(if strikeBetween g p1 p2 x then destroyInFlight x g else (x, g)) = (x', g')"
    by (cases "if strikeBetween g p1 p2 x then destroyInFlight x g else (x, g)")
  then have "tileOwner g' = tileOwner g"
    by (auto split: if_splits dest: destroyInFlight_tileOwner)
  with Cons.prems have "strikeBetween g' p1 p2 e" by (simp add: strikeBetween_def)
  from Cons.IH [OF this] obtain xs' ys' g1 where
    "destroyNukesBetween p1 p2 (xs @ e # ys) g' = (xs' @ e\<lparr>active := False\<rparr> # ys', g1)"
    "destroyNukesBetween p1 p2 (xs @ ys) g' = (xs' @ ys', g1)" by blast
  with x show ?case by (auto intro: exI [of _ "x' # xs'"])
qed


text \<open>No method makes an execution active: whatever is active after a call was active
  before it.\<close>

lemma tilesToDestroy_active: "tilesToDestroy env e g = Inr (c, e') \<Longrightarrow> active e' = active e"
  by (auto simp: tilesToDestroy_def Let_def split: option.splits if_splits)

lemma detonate_active: "active (fst (snd (detonate env e g))) \<Longrightarrow> active e"
  by (auto simp: detonate_def Let_def split: option.splits sum.splits prod.splits
      dest: tilesToDestroy_active)

lemma tickInFlight_active: "active (fst (snd (tickInFlight env u e g))) \<Longrightarrow> active e"
  using detonate_active [of env "e\<lparr>pathFinder := Some pf\<rparr>" g for pf]
  by (auto simp: tickInFlight_def Let_def split: option.splits sum.splits prod.splits if_splits)

lemma tickLaunch_active: "active (fst (snd (tickLaunch env e g))) \<Longrightarrow> active e"
  by (auto simp: tickLaunch_def Let_def split: option.splits sum.splits prod.splits if_splits)

lemma tick_active: "active (fst (snd (tick env t e g))) \<Longrightarrow> active e"
  by (auto simp: tick_def split: option.splits dest: tickLaunch_active tickInFlight_active)

lemma applyOperation_active:
  "active (fst (applyOperation env op eg)) \<Longrightarrow> active (fst eg)"
proof (cases eg)
  case (Pair e g)
  assume a: "active (fst (applyOperation env op eg))"
  show ?thesis
  proof (cases op)
    case OpInit
    with a Pair show ?thesis by simp
  next
    case (OpTick t)
    with a Pair show ?thesis using tick_active [of env t e g] by simp
  next
    case OpDestroyInFlight
    with a Pair show ?thesis
      by (auto simp: destroyInFlight_def split: if_splits option.splits)
  next
    case (OpExternal f)
    with a Pair show ?thesis by simp
  qed
qed

lemma applyOperations_active:
  "active (fst (applyOperations env ops eg)) \<Longrightarrow> active (fst eg)"
  unfolding applyOperations_def
proof (induction ops arbitrary: eg)
  case Nil
  then show ?case by simp
next
  case (Cons op ops)
  from Cons.prems have "active (fst (fold (applyOperation env) ops (applyOperation env op eg)))"
    by simp
  from Cons.IH [OF this] show ?case by (rule applyOperation_active)
qed

text \<open>Ticks on an execution whose Unit is inactive only write to the console.\<close>

lemma ticks_intercepted:
  assumes "nuke e = Some u" and "\<not> unitActive (unitStore g u)"
  shows "applyOperations env (map OpTick (t # ts)) (e, g)
     = (e\<lparr>active := False\<rparr>,
        g\<lparr>eventLog := eventLog g
             @ replicate (Suc (length ts)) (ConsoleLog ''Nuke destroyed before reaching target'')\<rparr>)"
  using assms
proof (induction ts arbitrary: t e g)
  case Nil
  then show ?case
    by (simp add: applyOperations_def tick_def tickInFlight_def logEvent_def)
next
  case (Cons t' ts)
  let ?L = "ConsoleLog ''Nuke destroyed before reaching target''"
  have step: "applyOperation env (OpTick t) (e, g) = (e\<lparr>active := False\<rparr>, logEvent ?L g)"
    using Cons.prems by (simp add: tick_def tickInFlight_def)
  have "applyOperations env (map OpTick (t # t' # ts)) (e, g)
      = applyOperations env (map OpTick (t' # ts)) (e\<lparr>active := False\<rparr>, logEvent ?L g)"
    using step by (simp add: applyOperations_def)
  also have "\<dots> = (e\<lparr>active := False\<rparr>,
        (logEvent ?L g)\<lparr>eventLog := eventLog (logEvent ?L g) @ replicate (Suc (length ts)) ?L\<rparr>)"
    using Cons.IH [of "e\<lparr>active := False\<rparr>" "logEvent ?L g" t'] Cons.prems
    by (simp add: logEvent_def)
  finally show ?case by (simp add: logEvent_def replicate_append_same)
qed

text \<open>
  \<^verbatim>\<open>tick\<close> does not look at \<^verbatim>\<open>this.active\<close>: called on a queued execution that has
  been marked inactive, it launches all the same. That a cancelled strike does not launch
  is the scheduler's doing, which does not call it.
\<close>

lemma tick_ignores_active:
  assumes "nuke e = None" and "canBuild env g (player e) (nukeType e) (dst e) = Some spawn"
    and "mg e" and "pathFinder e \<noteq> None"
  shows "fst (tick env t e g) = Returned \<and> nuke (fst (snd (tick env t e g))) = Some (freshUnitId g)"
  using assms
  by (auto simp: tick_def tickLaunch_def Let_def buildUnit_def launchBreakAlliances_def
      tilesInRange_def maybeBreakAlliances_def split: prod.splits sum.splits option.splits)


text \<open>The first loop of \<^verbatim>\<open>maybeBreakAlliances\<close> computes the accumulated weights; the
  second loop, entry by entry, does what the specification lists.\<close>

lemma attackedWeights_map_of:
  "map_of (attackedWeights g xs acc) p =
     (if Some p \<in> set (map (\<lambda>(t, w). tileOwner g t) xs) \<or> p \<in> fst ` set acc
      then Some ((case map_of acc p of None \<Rightarrow> 0 | Some v \<Rightarrow> v)
                 + sum_list (map (\<lambda>(t, w). if tileOwner g t = Some p then w else 0) xs))
      else None)"
proof (induction xs arbitrary: acc)
  case Nil
  show ?case by (auto simp: map_of_eq_None_iff split: option.splits dest: map_of_SomeD weak_map_of_SomeI)
next
  case (Cons x xs)
  obtain t w where x: "x = (t, w)" by (cases x)
  show ?case
  proof (cases "tileOwner g t")
    case None
    with x Cons.IH [of acc] show ?thesis by simp
  next
    case (Some q)
    let ?acc = "AList.update q ((case map_of acc q of None \<Rightarrow> 0 | Some prev \<Rightarrow> prev) + w) acc"
    have dom: "fst ` set ?acc = insert q (fst ` set acc)"
      by (simp add: AList.dom_update)
    have look: "map_of ?acc p = (if p = q then Some ((case map_of acc q of None \<Rightarrow> 0 | Some prev \<Rightarrow> prev) + w) else map_of acc p)"
      by (simp add: AList.update_conv')
    have "map_of (attackedWeights g (x # xs) acc) p = map_of (attackedWeights g xs ?acc) p"
      using x Some by simp
    also have "\<dots> =
      (if Some p \<in> set (map (\<lambda>(t, w). tileOwner g t) xs) \<or> p \<in> fst ` set ?acc
       then Some ((case map_of ?acc p of None \<Rightarrow> 0 | Some v \<Rightarrow> v)
                  + sum_list (map (\<lambda>(t, w). if tileOwner g t = Some p then w else 0) xs))
       else None)"
      by (rule Cons.IH)
    also have "\<dots> =
      (if Some p \<in> set (map (\<lambda>(t, w). tileOwner g t) (x # xs)) \<or> p \<in> fst ` set acc
       then Some ((case map_of acc p of None \<Rightarrow> 0 | Some v \<Rightarrow> v)
                  + sum_list (map (\<lambda>(t, w). if tileOwner g t = Some p then w else 0) (x # xs)))
       else None)"
    proof (cases "p = q")
      case True
      then show ?thesis unfolding dom look using x Some by simp
    next
      case False
      then show ?thesis unfolding dom look using x Some by auto
    qed
    finally show ?thesis .
  qed
qed

lemma attackedWeights_distinct:
  "distinct (map fst acc) \<Longrightarrow> distinct (map fst (attackedWeights g xs acc))"
proof (induction xs arbitrary: acc)
  case Nil
  then show ?case by simp
next
  case (Cons x xs)
  obtain t w where x: "x = (t, w)" by (cases x)
  show ?case
    using Cons.prems Cons.IH x
    by (cases "tileOwner g t") (simp_all add: AList.distinct_update)
qed


lemma breakAllianceStep_closed:
  "breakAllianceStep env e u (p, w) g =
     (if nukeAllianceBreakThreshold env < w \<and> unitType (unitStore g u) \<noteq> MIRVWarhead
      then g\<lparr>requestRel := requestRel g - {(player e, p)},
             allianceRel := allianceRel g - {(player e, p), (p, player e)},
             eventLog := eventLog g @ allianceBreakEvents g (player e) p\<rparr>
      else g)"
proof -
  have r: "(player e, p) \<notin> requestRel g \<Longrightarrow> requestRel g - {(player e, p)} = requestRel g"
    by auto
  have a: "\<not> allianceWith g (player e) p
      \<Longrightarrow> allianceRel g - {(player e, p), (p, player e)} = allianceRel g"
    by (auto simp: allianceWith_def)
  show ?thesis
    by (simp add: breakAllianceStep_def Let_def incomingAllianceRequest_def rejectRequest_def
        breakAlliance_def updateRelation_def logEvent_def allianceBreakEvents_def
        allianceWith_def r a [unfolded allianceWith_def])
qed

lemma fold_breakAllianceStep:
  assumes "distinct (map fst entries)"
    and "unitType (unitStore g0 u) \<noteq> MIRVWarhead"
    and "\<forall>p \<in> fst ` set entries. allianceBreakEvents g0 (player e) p = allianceBreakEvents g (player e) p"
  shows "fold (breakAllianceStep env e u) entries g0 =
     g0\<lparr>requestRel := requestRel g0 - {player e} \<times> set (thresholdHits env entries),
        allianceRel := allianceRel g0
            - ({player e} \<times> set (thresholdHits env entries)
               \<union> set (thresholdHits env entries) \<times> {player e}),
        eventLog := eventLog g0
            @ concat (map (allianceBreakEvents g (player e)) (thresholdHits env entries))\<rparr>"
  using assms
proof (induction entries arbitrary: g0)
  case Nil
  then show ?case by (simp add: thresholdHits_def)
next
  case (Cons x entries)
  obtain p w where x: "x = (p, w)" by (cases x)
  let ?g1 = "breakAllianceStep env e u (p, w) g0"
  have notin: "p \<notin> fst ` set entries" using Cons.prems(1) x by simp
  have store: "unitStore ?g1 = unitStore g0"
    by (simp add: breakAllianceStep_closed)
  have agree: "\<forall>q \<in> fst ` set entries.
      allianceBreakEvents ?g1 (player e) q = allianceBreakEvents g (player e) q"
  proof
    fix q assume q: "q \<in> fst ` set entries"
    with notin have "q \<noteq> p" by auto
    then have "allianceBreakEvents ?g1 (player e) q = allianceBreakEvents g0 (player e) q"
      by (auto simp: breakAllianceStep_closed allianceBreakEvents_def allianceWith_def)
    moreover have "allianceBreakEvents g0 (player e) q = allianceBreakEvents g (player e) q"
      using Cons.prems(3) q by auto
    ultimately show
      "allianceBreakEvents ?g1 (player e) q = allianceBreakEvents g (player e) q" by simp
  qed
  have ih: "fold (breakAllianceStep env e u) entries ?g1 =
     ?g1\<lparr>requestRel := requestRel ?g1 - {player e} \<times> set (thresholdHits env entries),
        allianceRel := allianceRel ?g1
            - ({player e} \<times> set (thresholdHits env entries)
               \<union> set (thresholdHits env entries) \<times> {player e}),
        eventLog := eventLog ?g1
            @ concat (map (allianceBreakEvents g (player e)) (thresholdHits env entries))\<rparr>"
    using Cons.prems(1,2) store agree by (intro Cons.IH) simp_all
  have here: "allianceBreakEvents g0 (player e) p = allianceBreakEvents g (player e) p"
    using Cons.prems(3) x by simp
  show ?case
  proof (cases "nukeAllianceBreakThreshold env < w")
    case True
    have sets: "requestRel g0 - {(player e, p)} - {player e} \<times> set (thresholdHits env entries)
        = requestRel g0 - {player e} \<times> insert p (set (thresholdHits env entries))"
      "allianceRel g0 - {(player e, p), (p, player e)}
        - ({player e} \<times> set (thresholdHits env entries)
           \<union> set (thresholdHits env entries) \<times> {player e})
        = allianceRel g0
        - ({player e} \<times> insert p (set (thresholdHits env entries))
           \<union> insert p (set (thresholdHits env entries)) \<times> {player e})"
      by auto
    have hits: "thresholdHits env (x # entries) = p # thresholdHits env entries"
      using True x by (simp add: thresholdHits_def)
    show ?thesis
      unfolding hits using x ih True Cons.prems(2) here sets
      by (simp add: breakAllianceStep_closed)
  next
    case False
    have hits: "thresholdHits env (x # entries) = thresholdHits env entries"
      using False x by (simp add: thresholdHits_def)
    show ?thesis
      unfolding hits using x ih False by (simp add: breakAllianceStep_closed)
  qed
qed


text \<open>The launch, step by step: what \<^verbatim>\<open>maybeBreakAlliances\<close> does with the blast
  estimate, what the announcement and the cooldown add to the log, and the whole launch
  tick.\<close>

lemma thresholdHits_set:
  assumes "distinct (map fst entries)"
  shows "distinct (thresholdHits env entries)
    \<and> set (thresholdHits env entries)
        = {p. \<exists>w. map_of entries p = Some w \<and> nukeAllianceBreakThreshold env < w}"
proof -
  have "distinct (thresholdHits env entries)"
    unfolding thresholdHits_def using assms by (rule distinct_map_filter)
  moreover have "set (thresholdHits env entries)
        = {p. \<exists>w. map_of entries p = Some w \<and> nukeAllianceBreakThreshold env < w}"
    using assms by (auto simp: thresholdHits_def image_iff)
  ultimately show ?thesis by simp
qed

lemma maybeBreakAlliances_effect:
  assumes "nuke e = Some u" and "mg e" and "unitType (unitStore g u) = ty" and "ty \<noteq> MIRVWarhead"
  shows "\<exists>inRange victims.
      tilesInRange env e g = Inr inRange
    \<and> distinct victims
    \<and> set victims = {p. ownsTileInBlast env g (dst e) ty p
                        \<and> nukeAllianceBreakThreshold env < blastWeight env g (dst e) ty p}
    \<and> maybeBreakAlliances env e inRange g =
        Inr (g\<lparr>requestRel := requestRel g - {player e} \<times> set victims,
               allianceRel := allianceRel g
                  - ({player e} \<times> set victims \<union> set victims \<times> {player e}),
               eventLog := eventLog g
                  @ concat (map (allianceBreakEvents g (player e)) victims)\<rparr>)"
proof -
  let ?cs = "circleSearch g (dst e) (snd (nukeMagnitudes env ty))"
  let ?inRange = "map (\<lambda>(t, d2). (t, tileWeight env ty d2)) ?cs"
  let ?entries = "attackedWeights g ?inRange []"
  let ?victims = "thresholdHits env ?entries"
  have tr: "tilesInRange env e g = Inr ?inRange"
    using assms by (simp add: tilesInRange_def Let_def tileWeight_def)
  have d: "distinct (map fst ?entries)"
    by (rule attackedWeights_distinct) simp
  have owners: "map (\<lambda>(t, w). tileOwner g t) ?inRange = map (\<lambda>(t, d2). tileOwner g t) ?cs"
    by (simp add: split_def comp_def)
  have sums: "sum_list (map (\<lambda>(t, w). if tileOwner g t = Some p then w else 0) ?inRange)
        = blastWeight env g (dst e) ty p" for p
    by (simp add: blastWeight_def split_def comp_def cong: if_cong)
  have look: "map_of ?entries p =
      (if ownsTileInBlast env g (dst e) ty p then Some (blastWeight env g (dst e) ty p) else None)"
    for p
    unfolding attackedWeights_map_of owners sums by (simp add: ownsTileInBlast_def)
  have v: "distinct ?victims"
    "set ?victims = {p. ownsTileInBlast env g (dst e) ty p
                        \<and> nukeAllianceBreakThreshold env < blastWeight env g (dst e) ty p}"
    using thresholdHits_set [OF d, of env] by (auto simp: look)
  have "fold (breakAllianceStep env e u) ?entries g =
        g\<lparr>requestRel := requestRel g - {player e} \<times> set ?victims,
          allianceRel := allianceRel g
             - ({player e} \<times> set ?victims \<union> set ?victims \<times> {player e}),
          eventLog := eventLog g @ concat (map (allianceBreakEvents g (player e)) ?victims)\<rparr>"
    using d assms by (intro fold_breakAllianceStep) simp_all
  then have "maybeBreakAlliances env e ?inRange g =
        Inr (g\<lparr>requestRel := requestRel g - {player e} \<times> set ?victims,
          allianceRel := allianceRel g
             - ({player e} \<times> set ?victims \<union> set ?victims \<times> {player e}),
          eventLog := eventLog g @ concat (map (allianceBreakEvents g (player e)) ?victims)\<rparr>)"
    using assms by (simp add: maybeBreakAlliances_def)
  with tr v show ?thesis by blast
qed


lemma blastWeight_buildUnit:
  "blastWeight env (snd (buildUnit p ty spawn tgt traj g)) d ty' q = blastWeight env g d ty' q"
  "ownsTileInBlast env (snd (buildUnit p ty spawn tgt traj g)) d ty' q = ownsTileInBlast env g d ty' q"
  "allianceBreakEvents (snd (buildUnit p ty spawn tgt traj g)) a q = allianceBreakEvents g a q"
  by (simp_all add: blastWeight_def ownsTileInBlast_def allianceBreakEvents_def allianceWith_def
      buildUnit_def Let_def circleSearch_def mapTiles_def euclideanDistSquared_def tileX_def
      tileY_def)

lemma launchAnnounce_log:
  "launchAnnounce u e g =
     g\<lparr>eventLog := eventLog g @
        (case tileOwner g (dst e) of
           None \<Rightarrow> []
         | Some tp \<Rightarrow>
             (if nukeType e = AtomBomb
              then [DisplayIncomingUnit u (playerName g (player e) @ '' - atom bomb inbound'')
                      NUKE_INBOUND tp]
              else if nukeType e = HydrogenBomb
              then [DisplayIncomingUnit u (playerName g (player e) @ '' - hydrogen bomb inbound'')
                      HYDROGEN_BOMB_INBOUND tp]
              else [])
             @ [BombLaunch (player e) (Some tp) (nukeType e)])\<rparr>"
  by (simp add: launchAnnounce_def hasOwner_def logEvent_def Let_def split: option.splits)

lemma launchSiloCooldown_log:
  "\<exists>silo. launchSiloCooldown spawn e g = g\<lparr>eventLog := eventLog g @ silo\<rparr>
      \<and> (silo = [] \<or> (\<exists>s. silo = [SiloLaunch s]))"
proof (cases "find (\<lambda>silo. unitTile (unitStore g silo) = spawn)
                (playerUnits g (player e) MissileSilo)")
  case None
  then have "launchSiloCooldown spawn e g = g\<lparr>eventLog := eventLog g @ []\<rparr>"
    by (simp add: launchSiloCooldown_def)
  then show ?thesis by blast
next
  case (Some s)
  then have "launchSiloCooldown spawn e g = g\<lparr>eventLog := eventLog g @ [SiloLaunch s]\<rparr>"
    by (simp add: launchSiloCooldown_def logEvent_def)
  then show ?thesis by blast
qed

lemma tick_launch_effect:
  assumes "nuke e = None"
    and "canBuild env g (player e) (nukeType e) (dst e) = Some spawn"
    and "mg e" and "pathFinder e \<noteq> None"
  obtains e' g' victims silo where
      "tick env t e g = (Returned, e', g')"
    and "nuke e' = Some (freshUnitId g)"
    and "distinct victims"
    and "set victims = {p. nukeType e \<noteq> MIRVWarhead
                        \<and> ownsTileInBlast env g (dst e) (nukeType e) p
                        \<and> nukeAllianceBreakThreshold env
                            < blastWeight env g (dst e) (nukeType e) p}"
    and "requestRel g' = requestRel g - {player e} \<times> set victims"
    and "allianceRel g' = allianceRel g
          - ({player e} \<times> set victims \<union> set victims \<times> {player e})"
    and "eventLog g' = eventLog g
          @ concat (map (allianceBreakEvents g (player e)) victims)
          @ (case tileOwner g (dst e) of
               None \<Rightarrow> []
             | Some tp \<Rightarrow>
                 (if nukeType e = AtomBomb
                  then [DisplayIncomingUnit (freshUnitId g)
                          (playerName g (player e) @ '' - atom bomb inbound'') NUKE_INBOUND tp]
                  else if nukeType e = HydrogenBomb
                  then [DisplayIncomingUnit (freshUnitId g)
                          (playerName g (player e) @ '' - hydrogen bomb inbound'')
                          HYDROGEN_BOMB_INBOUND tp]
                  else [])
                 @ [BombLaunch (player e) (Some tp) (nukeType e)])
          @ silo"
    and "silo = [] \<or> (\<exists>s. silo = [SiloLaunch s])"
proof -
  define pf where "pf = computeControlPoints env g spawn (dst e) (speed e)
                          (nukeType e \<noteq> MIRVWarhead)"
  define e2 where "e2 = e\<lparr>src := Some spawn, pathFinder := Some pf\<rparr>"
  define traj where "traj = getTrajectory env e2 g pf (dst e)"
  define u where "u = freshUnitId g"
  define g1 where "g1 = snd (buildUnit (player e) (nukeType e) spawn (Some (dst e)) traj g)"
  define e3 where "e3 = e2\<lparr>nuke := Some u\<rparr>"
  have b: "buildUnit (player e) (nukeType e) spawn (Some (dst e)) traj g = (u, g1)"
    by (simp add: buildUnit_def Let_def u_def g1_def)
  have g1: "unitType (unitStore g1 u) = nukeType e" "requestRel g1 = requestRel g"
    "allianceRel g1 = allianceRel g" "eventLog g1 = eventLog g" "tileOwner g1 = tileOwner g"
    "playerName g1 = playerName g"
    by (simp_all add: g1_def u_def buildUnit_def Let_def)
  have e3: "nuke e3 = Some u" "mg e3" "player e3 = player e" "dst e3 = dst e"
    "nukeType e3 = nukeType e"
    using assms by (simp_all add: e3_def e2_def)
  have "\<exists>victims g2. launchBreakAlliances env u e3 g1 = Inr g2
      \<and> distinct victims
      \<and> set victims = {p. nukeType e \<noteq> MIRVWarhead
                          \<and> ownsTileInBlast env g (dst e) (nukeType e) p
                          \<and> nukeAllianceBreakThreshold env
                              < blastWeight env g (dst e) (nukeType e) p}
      \<and> g2 = g1\<lparr>requestRel := requestRel g - {player e} \<times> set victims,
               allianceRel := allianceRel g
                  - ({player e} \<times> set victims \<union> set victims \<times> {player e}),
               eventLog := eventLog g
                  @ concat (map (allianceBreakEvents g (player e)) victims)\<rparr>"
  proof (cases "nukeType e = MIRVWarhead")
    case True
    then have "launchBreakAlliances env u e3 g1 = Inr g1"
      by (simp add: launchBreakAlliances_def g1)
    moreover have "g1 = g1\<lparr>requestRel := requestRel g - {player e} \<times> set [],
               allianceRel := allianceRel g - ({player e} \<times> set [] \<union> set [] \<times> {player e}),
               eventLog := eventLog g @ concat (map (allianceBreakEvents g (player e)) [])\<rparr>"
      using g1(2-4) by simp
    ultimately show ?thesis using True
      by (intro exI [of _ "[]"] exI [of _ g1]) simp
  next
    case False
    from maybeBreakAlliances_effect [OF e3(1,2) g1(1) False, of env]
    obtain inRange victims where
      m: "tilesInRange env e3 g1 = Inr inRange" "distinct victims"
        "set victims = {p. ownsTileInBlast env g1 (dst e3) (nukeType e) p
                        \<and> nukeAllianceBreakThreshold env < blastWeight env g1 (dst e3) (nukeType e) p}"
        "maybeBreakAlliances env e3 inRange g1 =
          Inr (g1\<lparr>requestRel := requestRel g1 - {player e3} \<times> set victims,
               allianceRel := allianceRel g1
                  - ({player e3} \<times> set victims \<union> set victims \<times> {player e3}),
               eventLog := eventLog g1
                  @ concat (map (allianceBreakEvents g1 (player e3)) victims)\<rparr>)"
      by blast
    have same: "allianceBreakEvents g1 (player e) = allianceBreakEvents g (player e)"
      by (rule ext) (simp add: g1_def blastWeight_buildUnit)
    have "launchBreakAlliances env u e3 g1 =
          Inr (g1\<lparr>requestRel := requestRel g - {player e} \<times> set victims,
               allianceRel := allianceRel g
                  - ({player e} \<times> set victims \<union> set victims \<times> {player e}),
               eventLog := eventLog g
                  @ concat (map (allianceBreakEvents g (player e)) victims)\<rparr>)"
      using False m(1,4) by (simp add: launchBreakAlliances_def g1 e3 same)
    moreover have "set victims = {p. nukeType e \<noteq> MIRVWarhead
                          \<and> ownsTileInBlast env g (dst e) (nukeType e) p
                          \<and> nukeAllianceBreakThreshold env
                              < blastWeight env g (dst e) (nukeType e) p}"
      using False m(3) by (simp add: g1_def blastWeight_buildUnit e3)
    ultimately show ?thesis using m(2) by blast
  qed
  then obtain victims g2 where
    l: "launchBreakAlliances env u e3 g1 = Inr g2" and dv: "distinct victims"
    and sv: "set victims = {p. nukeType e \<noteq> MIRVWarhead
                          \<and> ownsTileInBlast env g (dst e) (nukeType e) p
                          \<and> nukeAllianceBreakThreshold env
                              < blastWeight env g (dst e) (nukeType e) p}"
    and g2: "g2 = g1\<lparr>requestRel := requestRel g - {player e} \<times> set victims,
               allianceRel := allianceRel g
                  - ({player e} \<times> set victims \<union> set victims \<times> {player e}),
               eventLog := eventLog g
                  @ concat (map (allianceBreakEvents g (player e)) victims)\<rparr>"
    by blast
  define g3 where "g3 = launchAnnounce u e3 g2"
  obtain silo where silo: "launchSiloCooldown spawn e3 g3 = g3\<lparr>eventLog := eventLog g3 @ silo\<rparr>"
    "silo = [] \<or> (\<exists>s. silo = [SiloLaunch s])"
    using launchSiloCooldown_log [of spawn e3 g3] by blast
  have t: "tick env t e g = (Returned, e3, launchSiloCooldown spawn e3 g3)"
    using assms b l
    by (simp add: tick_def tickLaunch_def Let_def pf_def [symmetric] e2_def [symmetric]
        traj_def [symmetric] e3_def [symmetric] g3_def)
  let ?g' = "launchSiloCooldown spawn e3 g3"
  have owner2: "tileOwner g2 = tileOwner g" and name2: "playerName g2 = playerName g"
    by (simp_all add: g2 g1)
  have log3: "eventLog g3 = eventLog g
          @ concat (map (allianceBreakEvents g (player e)) victims)
          @ (case tileOwner g (dst e) of
               None \<Rightarrow> []
             | Some tp \<Rightarrow>
                 (if nukeType e = AtomBomb
                  then [DisplayIncomingUnit (freshUnitId g)
                          (playerName g (player e) @ '' - atom bomb inbound'') NUKE_INBOUND tp]
                  else if nukeType e = HydrogenBomb
                  then [DisplayIncomingUnit (freshUnitId g)
                          (playerName g (player e) @ '' - hydrogen bomb inbound'')
                          HYDROGEN_BOMB_INBOUND tp]
                  else [])
                 @ [BombLaunch (player e) (Some tp) (nukeType e)])"
    unfolding g3_def launchAnnounce_log owner2 name2 e3 u_def by (simp add: g2)
  have lg: "eventLog ?g' = eventLog g
          @ concat (map (allianceBreakEvents g (player e)) victims)
          @ (case tileOwner g (dst e) of
               None \<Rightarrow> []
             | Some tp \<Rightarrow>
                 (if nukeType e = AtomBomb
                  then [DisplayIncomingUnit (freshUnitId g)
                          (playerName g (player e) @ '' - atom bomb inbound'') NUKE_INBOUND tp]
                  else if nukeType e = HydrogenBomb
                  then [DisplayIncomingUnit (freshUnitId g)
                          (playerName g (player e) @ '' - hydrogen bomb inbound'')
                          HYDROGEN_BOMB_INBOUND tp]
                  else [])
                 @ [BombLaunch (player e) (Some tp) (nukeType e)])
          @ silo"
    unfolding silo(1) using log3 by simp
  have r: "requestRel ?g' = requestRel g - {player e} \<times> set victims"
    and a: "allianceRel ?g' = allianceRel g
          - ({player e} \<times> set victims \<union> set victims \<times> {player e})"
    unfolding silo(1) by (simp_all add: g3_def launchAnnounce_log g2)
  have n: "nuke e3 = Some (freshUnitId g)"
    by (simp add: e3 u_def)
  show thesis by (rule that [OF t n dv sv r a lg silo(2)])
qed


lemma allianceBreakEvents_kinds:
  "list_all isDiplomacy (concat (map (allianceBreakEvents g a) victims))"
  "filter isAnnouncement (concat (map (allianceBreakEvents g a) victims)) = []"
  by (induction victims) (simp_all add: allianceBreakEvents_def)

text \<open>A player without a tile in the search has no weight; so a weight beyond a threshold
  that is not negative is the weight of a player with a tile in the search.\<close>

lemma blastWeight_without_tile:
  assumes "\<not> ownsTileInBlast env g d ty p"
  shows "blastWeight env g d ty p = 0"
proof -
  have "Some p \<notin> set (map (\<lambda>(t, d2). tileOwner g t) cs)
      \<Longrightarrow> sum_list (map (\<lambda>(t, d2). if tileOwner g t = Some p then tileWeight env ty d2 else 0) cs) = 0"
    for cs :: "(TileRef \<times> int) list"
    by (induction cs) auto
  with assms show ?thesis
    by (simp add: blastWeight_def ownsTileInBlast_def)
qed

lemma beyond_threshold_owns_tile:
  assumes "0 \<le> nukeAllianceBreakThreshold env"
  shows "{p. nukeType e \<noteq> MIRVWarhead
            \<and> ownsTileInBlast env g d ty p
            \<and> nukeAllianceBreakThreshold env < blastWeight env g d ty p}
       = {p. nukeType e \<noteq> MIRVWarhead
            \<and> nukeAllianceBreakThreshold env < blastWeight env g d ty p}"
  using assms blastWeight_without_tile [of env g d ty] by force

text \<open>The breadth-first search keeps to the tiles its filter admits, and depends on the
  game through the size of the map only.\<close>

lemma bfsVisit_admitted:
  assumes "\<And>n s. fst (f n s) \<Longrightarrow> P n" and "list_all P seen"
  shows "list_all P (fst (snd (bfsVisit f ns (q, seen, s))))"
  using assms(2)
proof (induction ns arbitrary: q seen s)
  case Nil
  then show ?case by simp
next
  case (Cons n ns)
  show ?case
  proof (cases "n \<in> set seen")
    case True
    with Cons show ?thesis by simp
  next
    case False
    obtain b s' where fn: "f n s = (b, s')" by (cases "f n s")
    show ?thesis
    proof (cases b)
      case True
      with fn assms(1) [of n s] have "P n" by simp
      with Cons.prems have "list_all P (seen @ [n])" by simp
      from Cons.IH [OF this] False fn True show ?thesis by simp
    next
      case rejected: False
      from Cons.IH [OF Cons.prems] False fn rejected show ?thesis by simp
    qed
  qed
qed

lemma bfsLoop_admitted:
  "(\<And>n s. fst (f n s) \<Longrightarrow> P n) \<Longrightarrow> list_all P (fst (snd st))
     \<Longrightarrow> list_all P (fst (bfsLoop g f st))"
proof (induction g f st rule: bfsLoop.induct)
  case (1 g f seen s)
  then show ?case by simp
next
  case (2 g f c q seen s)
  obtain q' seen' s' where v: "bfsVisit f (neighbors g c) (q, seen, s) = (q', seen', s')"
    by (cases "bfsVisit f (neighbors g c) (q, seen, s)")
  from "2.prems"(2) have "list_all P seen" by simp
  with "2.prems"(1)
  have "list_all P (fst (snd (bfsVisit f (neighbors g c) (q, seen, s))))"
    by (rule bfsVisit_admitted)
  then have "list_all P (fst (bfsLoop g f (bfsVisit f (neighbors g c) (q, seen, s))))"
    using "2.prems"(1) by (intro "2.IH") auto
  then show ?case by simp
qed

lemma bfsLoop_same_map:
  "mapWidth g2 = mapWidth g \<Longrightarrow> mapHeight g2 = mapHeight g
     \<Longrightarrow> bfsLoop g2 f st = bfsLoop g f st"
proof (induction g f st rule: bfsLoop.induct)
  case (1 g f seen s)
  show ?case by simp
next
  case (2 g f c q seen s)
  have n: "neighbors g2 c = neighbors g c"
    using "2.prems" by (simp add: neighbors_def)
  have "bfsLoop g2 f (c # q, seen, s)
          = bfsLoop g2 f (bfsVisit f (neighbors g c) (q, seen, s))"
    by (simp add: n)
  also have "\<dots> = bfsLoop g f (bfsVisit f (neighbors g c) (q, seen, s))"
    using "2.prems" by (rule "2.IH")
  also have "\<dots> = bfsLoop g f (c # q, seen, s)"
    by simp
  finally show ?case .
qed


text \<open>The example strikes, evaluated.\<close>

lemma exampleReady_facts:
  "nuke exampleReady = None" "mg exampleReady" "pathFinder exampleReady \<noteq> None"
  "player exampleReady = 1" "nukeType exampleReady = AtomBomb" "dst exampleReady = 12"
  by (simp_all add: exampleReady_def exampleQueued_def newNukeExecution_def init_def Let_def)

lemma exampleWarhead_facts:
  "nuke exampleWarhead = None" "mg exampleWarhead" "pathFinder exampleWarhead \<noteq> None"
  "player exampleWarhead = 1" "nukeType exampleWarhead = MIRVWarhead" "dst exampleWarhead = 12"
  by (simp_all add: exampleWarhead_def newNukeExecution_def init_def Let_def)

lemma exampleFlying_tilesToDestroy:
  "tilesToDestroy exampleEnv exampleFlying exampleFlight
     = Inr ([12, 7, 17, 11, 13, 6, 22, 18, 10, 14],
            exampleFlying\<lparr>tilesToDestroyCache := Some [12, 7, 17, 11, 13, 6, 22, 18, 10, 14]\<rparr>)"
  by (simp add: tilesToDestroy_def Let_def bfs_def destroyFilter_def neighbors_def exampleEnv_def
      exampleFlying_def exampleFlight_def exampleGame_def exampleBomb_def
      euclideanDistSquared_def tileX_def tileY_def)

lemma exampleOther_tilesToDestroy:
  "tilesToDestroy exampleEnv exampleOther exampleOtherGame
     = Inr ([12, 7, 17, 11, 13, 6, 22, 18, 10, 14],
            exampleOther\<lparr>tilesToDestroyCache := Some [12, 7, 17, 11, 13, 6, 22, 18, 10, 14]\<rparr>)"
  by (simp add: tilesToDestroy_def Let_def bfs_def destroyFilter_def neighbors_def exampleEnv_def
      exampleOther_def exampleOtherGame_def
      exampleFlying_def exampleFlight_def exampleGame_def exampleBomb_def
      euclideanDistSquared_def tileX_def tileY_def)

text \<open>Within the safe-integer range, arithmetic on whole numbers is exact; beyond it, the
  decrement of the wait-tick counter is not a decrement by one.\<close>

lemma doubleUlp_small: "m < 2 ^ 53 \<Longrightarrow> doubleUlp m = 1"
  by (subst doubleUlp.simps) (simp only: if_True)

lemma roundToDouble_safe: "\<bar>m\<bar> < 2 ^ 53 \<Longrightarrow> roundToDouble m = m"
proof -
  assume a: "\<bar>m\<bar> < 2 ^ 53"
  then have u: "doubleUlp \<bar>m\<bar> = 1" by (rule doubleUlp_small)
  have "sgn m * \<bar>m\<bar> = m"
    by (cases "m < 0") (simp_all add: sgn_if)
  then show ?thesis
    unfolding roundToDouble_def Let_def u by simp
qed

lemma roundToDouble_beyond_safe:
  "roundToDouble 9007199254740993 = 9007199254740992"
  "roundToDouble 9007199254740995 = 9007199254740996"
  by code_simp+

lemma tick_wait_rounds:
  assumes "nuke e = Some u" and "unitActive (unitStore g u)" and "0 < waitTicks e"
  shows "tick env t e g = (Returned, e\<lparr>waitTicks := roundToDouble (waitTicks e - 1)\<rparr>, g)"
  using assms by (simp add: tick_def tickInFlight_def)

lemma tick_wait_beyond_safe:
  "waitTicks (fst (snd (tick exampleEnv 7 (exampleFlying\<lparr>waitTicks := 9007199254740994\<rparr>)
                          exampleFlight))) = 9007199254740992"
proof -
  have "tick exampleEnv 7 (exampleFlying\<lparr>waitTicks := 9007199254740994\<rparr>) exampleFlight
      = (Returned,
         exampleFlying\<lparr>waitTicks := 9007199254740994\<rparr>
           \<lparr>waitTicks := roundToDouble
              (waitTicks (exampleFlying\<lparr>waitTicks := 9007199254740994\<rparr>) - 1)\<rparr>,
         exampleFlight)"
    by (rule tick_wait_rounds [where u = 1])
      (simp_all add: exampleFlying_def exampleFlight_def exampleGame_def exampleBomb_def)
  then show ?thesis
    by (simp add: roundToDouble_beyond_safe(1))
qed

section \<open>Forced cancellation\<close>

text \<open>
  Claim C10. Calling \<^verbatim>\<open>destroyInFlight\<close> on an execution that is still active makes it
  inactive, deletes the spawned Unit if there is one, and clears the reference to the
  Unit, so that \<^verbatim>\<open>isInFlight()\<close> is false; on an execution that is already inactive it
  changes no state at all. A second call in a row is therefore always without effect.
\<close>

theorem destroyInFlight_then_noop:
  "(case destroyInFlight e g of
      (e', g') \<Rightarrow>
        (if active e
         then \<not> isActive e' \<and> \<not> isInFlight e' \<and> getNuke e' = None
              \<and> (case nuke e of
                    Some u \<Rightarrow> g' = unitDelete u None g \<and> \<not> unitActive (unitStore g' u)
                              \<and> u \<notin> set (units g')
                  | None \<Rightarrow> g' = g)
         else (e', g') = (e, g))
        \<and> destroyInFlight e' g' = (e', g'))"
  by (simp add: destroyInFlight_def isActive_def isInFlight_def getNuke_def unitDelete_def
      updateUnit_def units_def split: option.splits)

theorem destroyInFlight_then_noop_witness:
  "active exampleFlying \<and> nuke exampleFlying = Some 1 \<and> 1 \<in> set (units exampleFlight)
   \<and> (case destroyInFlight exampleFlying exampleFlight of
         (e', g') \<Rightarrow> \<not> isActive e' \<and> \<not> isInFlight e' \<and> 1 \<notin> set (units g')
                     \<and> destroyInFlight e' g' = (e', g'))"
  using destroyInFlight_then_noop [of exampleFlying exampleFlight]
  by (simp add: exampleFlying_def exampleFlight_def exampleGame_def exampleBomb_def
      units_def split: prod.splits)

section \<open>Launch delay\<close>

text \<open>
  Claim C9. On an in-flight tick where the Unit is still active and the wait-tick counter
  is positive, the counter is decremented by one and nothing else changes: the game is
  the same (the Unit has not moved, its trajectory-progress index and targetable flag are
  untouched, nothing has detonated) and the execution differs in the counter only, so it
  is as active as before. The counter is a JavaScript number; the decrement is by one as
  long as the counter is within the safe-integer range, up to \<open>2 ^ 53\<close>.
\<close>

theorem tick_wait_only_decrements:
  assumes "nuke e = Some u" and "unitActive (unitStore g u)" and "0 < waitTicks e"
    and "waitTicks e \<le> 2 ^ 53"
  shows "tick env t e g = (Returned, e\<lparr>waitTicks := waitTicks e - 1\<rparr>, g)"
proof -
  from assms(3,4) have "\<bar>waitTicks e - 1\<bar> < 2 ^ 53" by simp
  then have "roundToDouble (waitTicks e - 1) = waitTicks e - 1"
    by (rule roundToDouble_safe)
  with assms(1-3) show ?thesis by (simp add: tick_def tickInFlight_def)
qed

theorem tick_wait_only_decrements_witness:
  "nuke exampleFlying = Some 1 \<and> unitActive (unitStore exampleFlight 1)
   \<and> 0 < waitTicks exampleFlying \<and> waitTicks exampleFlying \<le> 2 ^ 53
   \<and> tick exampleEnv 7 exampleFlying exampleFlight
       = (Returned, exampleFlying\<lparr>waitTicks := 1\<rparr>, exampleFlight)"
proof -
  have h: "nuke exampleFlying = Some 1" "unitActive (unitStore exampleFlight 1)"
    "0 < waitTicks exampleFlying" "waitTicks exampleFlying \<le> 2 ^ 53"
    by (simp_all add: exampleFlying_def exampleFlight_def exampleGame_def exampleBomb_def)
  have w: "exampleFlying\<lparr>waitTicks := waitTicks exampleFlying - 1\<rparr>
             = exampleFlying\<lparr>waitTicks := 1\<rparr>"
    by (simp add: exampleFlying_def)
  from tick_wait_only_decrements [OF h, of exampleEnv 7] h show ?thesis
    unfolding w by simp
qed

section \<open>The destroyed tiles\<close>

text \<open>
  Claim C3. The destroyed-tile set computed at detonation is the breadth-first expansion
  from the destination tile, with the generator seeded by the current tick count, under a
  filter that admits a tile if and only if its squared distance to the destination is
  within the outer radius and it is within the inner radius or a 1-in-2 draw succeeds.
  Every tile of the set lies within the outer radius of the destination. The set is
  reproducible: a second computation for the same destination and radii, at the same tick
  on a map of the same size, gives the same set, whatever else differs.
\<close>

theorem destroyed_tiles_within_outer_radius:
  assumes "tilesToDestroyCache e = None" and "nuke e = Some u" and "mg e"
    and "nukeMagnitudes env (unitType (unitStore g u)) = (inner, outer)"
    and "tilesToDestroyCache e2 = None" and "nuke e2 = Some u2" and "mg e2"
    and "nukeMagnitudes env (unitType (unitStore g2 u2)) = (inner, outer)"
    and "dst e2 = dst e" and "tickCount g2 = tickCount g"
    and "mapWidth g2 = mapWidth g" and "mapHeight g2 = mapHeight g"
  shows "\<exists>c. tilesToDestroy env e g = Inr (c, e\<lparr>tilesToDestroyCache := Some c\<rparr>)
      \<and> c = fst (bfs g (dst e) (destroyFilter env g e (inner * inner) (outer * outer))
                  (randSeed env (tickCount g)))
      \<and> (\<forall>n rand. fst (destroyFilter env g e (inner * inner) (outer * outer) n rand)
            = (euclideanDistSquared g (dst e) n \<le> outer * outer
               \<and> (euclideanDistSquared g (dst e) n \<le> inner * inner
                  \<or> fst (randChance env rand 2))))
      \<and> list_all (\<lambda>t. euclideanDistSquared g (dst e) t \<le> outer * outer) c
      \<and> tilesToDestroy env e2 g2 = Inr (c, e2\<lparr>tilesToDestroyCache := Some c\<rparr>)"
proof -
  let ?F = "destroyFilter env g e (inner * inner) (outer * outer)"
  let ?c = "fst (bfs g (dst e) ?F (randSeed env (tickCount g)))"
  have run: "tilesToDestroy env e g = Inr (?c, e\<lparr>tilesToDestroyCache := Some ?c\<rparr>)"
    using assms(1-4) by (simp add: tilesToDestroy_def Let_def)
  have admit: "fst (?F n rand)
            = (euclideanDistSquared g (dst e) n \<le> outer * outer
               \<and> (euclideanDistSquared g (dst e) n \<le> inner * inner
                  \<or> fst (randChance env rand 2)))" for n rand
    by (simp add: destroyFilter_def Let_def)
  have start: "list_all (\<lambda>t. euclideanDistSquared g (dst e) t \<le> outer * outer) [dst e]"
    by (simp add: euclideanDistSquared_def)
  have within: "list_all (\<lambda>t. euclideanDistSquared g (dst e) t \<le> outer * outer) ?c"
    unfolding bfs_def
  proof (rule bfsLoop_admitted)
    fix n s assume "fst (?F n s)"
    then show "euclideanDistSquared g (dst e) n \<le> outer * outer"
      by (simp add: admit)
  next
    show "list_all (\<lambda>t. euclideanDistSquared g (dst e) t \<le> outer * outer)
            (fst (snd ([dst e], [dst e], randSeed env (tickCount g))))"
      using start by simp
  qed
  have filter2: "destroyFilter env g2 e2 (inner * inner) (outer * outer) = ?F"
    using assms(9,11)
    by (intro ext) (simp add: destroyFilter_def euclideanDistSquared_def tileX_def tileY_def)
  have "fst (bfs g2 (dst e2) (destroyFilter env g2 e2 (inner * inner) (outer * outer))
               (randSeed env (tickCount g2))) = ?c"
    unfolding bfs_def filter2 assms(9,10)
    by (simp only: bfsLoop_same_map [OF assms(11,12)])
  then have again: "tilesToDestroy env e2 g2 = Inr (?c, e2\<lparr>tilesToDestroyCache := Some ?c\<rparr>)"
    using assms(5-8) by (simp add: tilesToDestroy_def Let_def)
  show ?thesis
    using run admit within again by (intro exI [of _ ?c]) simp
qed

theorem destroyed_tiles_within_outer_radius_witness:
  "tilesToDestroyCache exampleFlying = None \<and> nuke exampleFlying = Some 1 \<and> mg exampleFlying
   \<and> nukeMagnitudes exampleEnv (unitType (unitStore exampleFlight 1)) = (1, 2)
   \<and> tilesToDestroyCache exampleOther = None \<and> nuke exampleOther = Some 4 \<and> mg exampleOther
   \<and> nukeMagnitudes exampleEnv (unitType (unitStore exampleOtherGame 4)) = (1, 2)
   \<and> dst exampleOther = dst exampleFlying
   \<and> tickCount exampleOtherGame = tickCount exampleFlight
   \<and> mapWidth exampleOtherGame = mapWidth exampleFlight
   \<and> mapHeight exampleOtherGame = mapHeight exampleFlight
   \<and> tilesToDestroy exampleEnv exampleFlying exampleFlight
       = Inr ([12, 7, 17, 11, 13, 6, 22, 18, 10, 14],
              exampleFlying\<lparr>tilesToDestroyCache := Some [12, 7, 17, 11, 13, 6, 22, 18, 10, 14]\<rparr>)
   \<and> list_all (\<lambda>t. euclideanDistSquared exampleFlight (dst exampleFlying) t \<le> 2 * 2)
        [12, 7, 17, 11, 13, 6, 22, 18, 10, 14]
   \<and> tilesToDestroy exampleEnv exampleOther exampleOtherGame
       = Inr ([12, 7, 17, 11, 13, 6, 22, 18, 10, 14],
              exampleOther\<lparr>tilesToDestroyCache := Some [12, 7, 17, 11, 13, 6, 22, 18, 10, 14]\<rparr>)"
proof -
  have h: "tilesToDestroyCache exampleFlying = None" "nuke exampleFlying = Some 1"
    "mg exampleFlying"
    "nukeMagnitudes exampleEnv (unitType (unitStore exampleFlight 1)) = (1, 2)"
    "tilesToDestroyCache exampleOther = None" "nuke exampleOther = Some 4" "mg exampleOther"
    "nukeMagnitudes exampleEnv (unitType (unitStore exampleOtherGame 4)) = (1, 2)"
    "dst exampleOther = dst exampleFlying"
    "tickCount exampleOtherGame = tickCount exampleFlight"
    "mapWidth exampleOtherGame = mapWidth exampleFlight"
    "mapHeight exampleOtherGame = mapHeight exampleFlight"
    by (simp_all add: exampleFlying_def exampleOther_def exampleEnv_def exampleFlight_def
        exampleOtherGame_def exampleGame_def)
  from destroyed_tiles_within_outer_radius [OF h]
  obtain c where
    c: "tilesToDestroy exampleEnv exampleFlying exampleFlight
          = Inr (c, exampleFlying\<lparr>tilesToDestroyCache := Some c\<rparr>)"
    and w: "list_all (\<lambda>t. euclideanDistSquared exampleFlight (dst exampleFlying) t \<le> 2 * 2) c"
    and o: "tilesToDestroy exampleEnv exampleOther exampleOtherGame
          = Inr (c, exampleOther\<lparr>tilesToDestroyCache := Some c\<rparr>)"
    by (elim exE conjE)
  from c have "c = [12, 7, 17, 11, 13, 6, 22, 18, 10, 14]"
    unfolding exampleFlying_tilesToDestroy by simp
  with c w o h show ?thesis by simp
qed


section \<open>The cache of destroyed tiles\<close>

text \<open>
  Claim C4. Once the destroyed-tile set of an execution has been computed, every later
  query returns the identical cached set and leaves the execution as it is, whatever the
  game, its tick count, the configuration and the random generator are by then: the
  computation, random draws included, is not run again.
\<close>

theorem tilesToDestroy_cached:
  assumes "tilesToDestroy env e g = Inr (c, e')"
  shows "tilesToDestroyCache e' = Some c \<and> tilesToDestroy env' e' g' = Inr (c, e')"
  using assms by (auto simp: tilesToDestroy_def Let_def split: option.splits if_splits)

theorem tilesToDestroy_cached_witness:
  "tilesToDestroy exampleEnv exampleFlying exampleFlight
     = Inr ([12, 7, 17, 11, 13, 6, 22, 18, 10, 14],
            exampleFlying\<lparr>tilesToDestroyCache := Some [12, 7, 17, 11, 13, 6, 22, 18, 10, 14]\<rparr>)
   \<and> tilesToDestroy (exampleEnv\<lparr>randSeed := (\<lambda>t. t + 1)\<rparr>)
         (exampleFlying\<lparr>tilesToDestroyCache := Some [12, 7, 17, 11, 13, 6, 22, 18, 10, 14]\<rparr>)
         (exampleGame\<lparr>tickCount := 99\<rparr>)
     = Inr ([12, 7, 17, 11, 13, 6, 22, 18, 10, 14],
            exampleFlying\<lparr>tilesToDestroyCache := Some [12, 7, 17, 11, 13, 6, 22, 18, 10, 14]\<rparr>)"
  using exampleFlying_tilesToDestroy
    tilesToDestroy_cached [OF exampleFlying_tilesToDestroy,
      of "exampleEnv\<lparr>randSeed := (\<lambda>t. t + 1)\<rparr>" "exampleGame\<lparr>tickCount := 99\<rparr>"]
  by simp

section \<open>Cancellation by an accepted alliance\<close>

text \<open>
  Claim C1. Let a strike be queued (no Unit spawned yet), and let an alliance be accepted
  between its owner and the owner of its target tile. The acceptance marks the strike
  inactive where it stands in the scheduler, and is otherwise what it would have been
  without the strike. From then on, any number of scheduler passes runs as if the strike
  had never been scheduled: same outcome, same game, same scheduled executions. So its
  launch transition never executes, it spawns no Unit and fires no side effect; and
  whatever a returning pass leaves scheduled is active, so the strike is no longer there.
\<close>

theorem queued_strike_never_launches:
  assumes "nuke e = None" and "strikeBetween g p1 p2 e"
  shows "case acceptAlliance p1 p2 (xs @ e # ys, g) of
           (s1, g1) \<Rightarrow>
             (case acceptAlliance p1 p2 (xs @ ys, g) of
                (s2, g2) \<Rightarrow>
                  g1 = g2
                  \<and> (\<exists>xs' ys'. s1 = xs' @ e\<lparr>active := False\<rparr> # ys' \<and> s2 = xs' @ ys')
                  \<and> sameRun (executeTicks env (Suc n) (s1, g1)) (executeTicks env (Suc n) (s2, g2))
                  \<and> (case executeTicks env (Suc n) (s1, g1) of
                        (Returned, s', g') \<Rightarrow> list_all isActive s'
                      | (Threw err, s', g') \<Rightarrow> True))"
proof -
  from destroyNukesBetween_skips_queued [OF assms, of xs ys]
  obtain xs' ys' g1 where
    d: "destroyNukesBetween p1 p2 (xs @ e # ys) g = (xs' @ e\<lparr>active := False\<rparr> # ys', g1)"
       "destroyNukesBetween p1 p2 (xs @ ys) g = (xs' @ ys', g1)" by blast
  let ?g = "g1\<lparr>requestRel := requestRel g1 - {(p1, p2)}, allianceRel := allianceRel g1 \<union> {(p1, p2)}\<rparr>"
  have a: "acceptAlliance p1 p2 (xs @ e # ys, g) = (xs' @ e\<lparr>active := False\<rparr> # ys', ?g)"
    "acceptAlliance p1 p2 (xs @ ys, g) = (xs' @ ys', ?g)"
    using d by (simp_all add: acceptAlliance_def)
  have s: "sameRun (executeTicks env (Suc n) (xs' @ e\<lparr>active := False\<rparr> # ys', ?g))
             (executeTicks env (Suc n) (xs' @ ys', ?g))"
    by (rule executeTicks_skips_inactive) simp_all
  have l: "case executeTicks env (Suc n) (xs' @ e\<lparr>active := False\<rparr> # ys', ?g) of
             (Returned, s', g') \<Rightarrow> list_all isActive s' | (Threw err, s', g') \<Rightarrow> True"
    using executeTicks_all_active [of "Suc n" env "(xs' @ e\<lparr>active := False\<rparr> # ys', ?g)"]
    by (auto simp: list_all_iff split: prod.splits Outcome.splits)
  show ?thesis unfolding a using s l by auto
qed

lemma exampleQueued_run:
  "executeTicks exampleEnv 5 ([], exampleGame\<lparr>allianceRel := {(1, 2)}\<rparr>)
     = (Returned, [], exampleGame\<lparr>allianceRel := {(1, 2)}, tickCount := 12\<rparr>)"
  by (simp add: eval_nat_numeral executeNextTick_def initAll_def exampleGame_def)

theorem queued_strike_never_launches_witness:
  "nuke exampleQueued = None \<and> strikeBetween exampleGame 1 2 exampleQueued
   \<and> acceptAlliance 1 2 ([exampleQueued], exampleGame)
       = ([exampleQueued\<lparr>active := False\<rparr>], exampleGame\<lparr>allianceRel := {(1, 2)}\<rparr>)
   \<and> executeTicks exampleEnv 5 ([exampleQueued\<lparr>active := False\<rparr>], exampleGame\<lparr>allianceRel := {(1, 2)}\<rparr>)
       = (Returned, [], exampleGame\<lparr>allianceRel := {(1, 2)}, tickCount := 12\<rparr>)"
proof -
  have h1: "nuke exampleQueued = None"
    by (simp add: exampleQueued_def newNukeExecution_def)
  have h2: "strikeBetween exampleGame 1 2 exampleQueued"
    by (simp add: strikeBetween_def owner_def targetTile_def exampleQueued_def
        newNukeExecution_def exampleGame_def)
  have a: "acceptAlliance 1 2 ([] @ exampleQueued # [], exampleGame)
       = ([exampleQueued\<lparr>active := False\<rparr>], exampleGame\<lparr>allianceRel := {(1, 2)}\<rparr>)"
    using h1 h2 by (simp add: acceptAlliance_def destroyInFlight_def exampleQueued_def
        newNukeExecution_def exampleGame_def)
  have b: "acceptAlliance 1 2 ([] @ [], exampleGame) = ([], exampleGame\<lparr>allianceRel := {(1, 2)}\<rparr>)"
    by (simp add: acceptAlliance_def exampleGame_def)
  from queued_strike_never_launches [OF h1 h2, where xs = "[]" and ys = "[]" and env = exampleEnv and n = 4]
  have "sameRun (executeTicks exampleEnv 5 ([exampleQueued\<lparr>active := False\<rparr>], exampleGame\<lparr>allianceRel := {(1, 2)}\<rparr>))
          (executeTicks exampleEnv 5 ([], exampleGame\<lparr>allianceRel := {(1, 2)}\<rparr>))"
    unfolding a b by simp
  then have "executeTicks exampleEnv 5 ([exampleQueued\<lparr>active := False\<rparr>], exampleGame\<lparr>allianceRel := {(1, 2)}\<rparr>)
       = (Returned, [], exampleGame\<lparr>allianceRel := {(1, 2)}, tickCount := 12\<rparr>)"
    unfolding exampleQueued_run sameRun_def by (auto split: if_splits)
  with h1 h2 a show ?thesis by simp
qed


section \<open>Launch refusal\<close>

text \<open>
  Claim C5. If, on a tick where no Unit exists yet, the owning player cannot resolve a
  launch site (\<^verbatim>\<open>canBuild\<close> refuses), the tick returns without an exception, the
  execution is inactive from that tick on and otherwise unchanged, and the game is
  unchanged but for the warning on the console: no Unit is created, no diplomacy or
  statistics side effect fires. The scheduler then runs as if the execution were not
  scheduled, so it never creates a Unit later either.
\<close>

theorem tick_launch_refused:
  assumes "nuke e = None" and "canBuild env g (player e) (nukeType e) (dst e) = None"
  shows "tick env t e g
           = (Returned, e\<lparr>active := False\<rparr>, logEvent (ConsoleWarn ''cannot build Nuke'') g)
         \<and> sameRun (executeTicks env (Suc n) (xs @ e\<lparr>active := False\<rparr> # ys, g'))
                    (executeTicks env (Suc n) (xs @ ys, g'))"
  using assms executeTicks_skips_inactive [of "e\<lparr>active := False\<rparr>" "Suc n" env xs ys g']
  by (simp add: tick_def tickLaunch_def)

lemma exampleBlocked_run:
  "executeTicks exampleEnv 3 ([], exampleGame) = (Returned, [], exampleGame\<lparr>tickCount := 10\<rparr>)"
  by (simp add: eval_nat_numeral executeNextTick_def initAll_def exampleGame_def)

theorem tick_launch_refused_witness:
  "nuke exampleBlocked = None
   \<and> canBuild exampleEnv exampleGame (player exampleBlocked) (nukeType exampleBlocked)
        (dst exampleBlocked) = None
   \<and> tick exampleEnv 7 exampleBlocked exampleGame
        = (Returned, exampleBlocked\<lparr>active := False\<rparr>,
           logEvent (ConsoleWarn ''cannot build Nuke'') exampleGame)
   \<and> executeTicks exampleEnv 3 ([exampleBlocked\<lparr>active := False\<rparr>], exampleGame)
        = (Returned, [], exampleGame\<lparr>tickCount := 10\<rparr>)"
proof -
  have h1: "nuke exampleBlocked = None"
    by (simp add: exampleBlocked_def newNukeExecution_def)
  have h2: "canBuild exampleEnv exampleGame (player exampleBlocked) (nukeType exampleBlocked)
              (dst exampleBlocked) = None"
    by (simp add: exampleBlocked_def newNukeExecution_def exampleEnv_def)
  from tick_launch_refused [OF h1 h2, where t = 7 and n = 2 and xs = "[]" and ys = "[]"
      and g' = exampleGame]
  have t: "tick exampleEnv 7 exampleBlocked exampleGame
        = (Returned, exampleBlocked\<lparr>active := False\<rparr>,
           logEvent (ConsoleWarn ''cannot build Nuke'') exampleGame)"
    and r: "sameRun (executeTicks exampleEnv 3 ([exampleBlocked\<lparr>active := False\<rparr>], exampleGame))
              (executeTicks exampleEnv 3 ([], exampleGame))"
    by (simp_all add: eval_nat_numeral)
  from r have "executeTicks exampleEnv 3 ([exampleBlocked\<lparr>active := False\<rparr>], exampleGame)
        = (Returned, [], exampleGame\<lparr>tickCount := 10\<rparr>)"
    unfolding exampleBlocked_run sameRun_def by (auto split: if_splits)
  with h1 h2 t show ?thesis by simp
qed

section \<open>Interception\<close>

text \<open>
  Claim C6. If on an in-flight tick the spawned Unit has been deactivated by somebody else
  (interception), the tick returns without an exception, the execution is inactive at
  once, and on that tick and on every later one the game changes by a line on the console
  only: no tile is relinquished, no troops are removed, no fallout is marked, no unit is
  deleted, no impact is recorded.
\<close>

theorem intercepted_never_detonates:
  assumes "nuke e = Some u" and "\<not> unitActive (unitStore g u)"
  shows "tick env t e g
           = (Returned, e\<lparr>active := False\<rparr>,
              logEvent (ConsoleLog ''Nuke destroyed before reaching target'') g)
         \<and> applyOperations env (map OpTick (t # ts)) (e, g)
           = (e\<lparr>active := False\<rparr>,
              g\<lparr>eventLog := eventLog g
                   @ replicate (Suc (length ts))
                       (ConsoleLog ''Nuke destroyed before reaching target'')\<rparr>)"
  using assms ticks_intercepted [OF assms, of env t ts]
  by (simp add: tick_def tickInFlight_def)

theorem intercepted_never_detonates_witness:
  "nuke exampleFlying = Some 1 \<and> \<not> unitActive (unitStore exampleIntercepted 1)
   \<and> tick exampleEnv 8 exampleFlying exampleIntercepted
       = (Returned, exampleFlying\<lparr>active := False\<rparr>,
          logEvent (ConsoleLog ''Nuke destroyed before reaching target'') exampleIntercepted)
   \<and> applyOperations exampleEnv [OpTick 8, OpTick 9, OpTick 10]
         (exampleFlying, exampleIntercepted)
       = (exampleFlying\<lparr>active := False\<rparr>,
          exampleIntercepted\<lparr>eventLog :=
            [ConsoleLog ''Nuke destroyed before reaching target'',
             ConsoleLog ''Nuke destroyed before reaching target'',
             ConsoleLog ''Nuke destroyed before reaching target'']\<rparr>)"
proof -
  have h1: "nuke exampleFlying = Some 1"
    by (simp add: exampleFlying_def)
  have h2: "\<not> unitActive (unitStore exampleIntercepted 1)"
    by (simp add: exampleIntercepted_def unitDelete_def updateUnit_def)
  have l: "eventLog exampleIntercepted = []"
    by (simp add: exampleIntercepted_def unitDelete_def updateUnit_def exampleFlight_def
        exampleGame_def)
  from intercepted_never_detonates [OF h1 h2, of exampleEnv 8 "[9, 10]"] h1 h2 l
  show ?thesis by (simp add: eval_nat_numeral)
qed

section \<open>Inactive is final\<close>

text \<open>
  Claim C8. Inactive is monotonic. For every sequence of operations on an execution
  (\<^verbatim>\<open>init\<close>, \<^verbatim>\<open>tick\<close> with its launch, refusal, flight and detonation,
  \<^verbatim>\<open>destroyInFlight\<close>, and changes of the game by others in between), once
  \<^verbatim>\<open>isActive()\<close> is false it is false after every continuation of the sequence.
\<close>

theorem inactive_is_monotonic:
  assumes "\<not> isActive (fst (applyOperations env ops eg))"
  shows "\<not> isActive (fst (applyOperations env (ops @ later) eg))"
proof -
  have "applyOperations env (ops @ later) eg
          = applyOperations env later (applyOperations env ops eg)"
    by (simp add: applyOperations_def)
  with assms applyOperations_active [of env later "applyOperations env ops eg"]
  show ?thesis by (auto simp: isActive_def)
qed

theorem inactive_is_monotonic_witness:
  "\<not> isActive (fst (applyOperations exampleEnv [OpInit, OpDestroyInFlight]
                       (exampleQueued, exampleGame)))
   \<and> \<not> isActive (fst (applyOperations exampleEnv
                         ([OpInit, OpDestroyInFlight] @ [OpTick 8, OpInit, OpTick 9])
                         (exampleQueued, exampleGame)))"
proof -
  have h: "\<not> isActive (fst (applyOperations exampleEnv [OpInit, OpDestroyInFlight]
                             (exampleQueued, exampleGame)))"
    by (simp add: applyOperations_def isActive_def destroyInFlight_def init_def
        exampleQueued_def newNukeExecution_def)
  from inactive_is_monotonic [OF h, of "[OpTick 8, OpInit, OpTick 9]"] h
  show ?thesis by simp
qed

section \<open>Alliance breaking at launch\<close>

text \<open>
  Claim C2. On the tick that spawns the Unit, the players hit are exactly those who own a
  tile of the circular search around the destination and whose accumulated blast weight
  (1.0 per tile within the inner radius, 0.5 per tile between inner and outer radius)
  exceeds the configured threshold, and none at all when the weapon class is the warhead
  sub-munition. With a threshold that is not negative, they are simply the players whose
  accumulated blast weight exceeds it. The diplomacy events of the tick are, player by
  player, those listed by \<open>allianceBreakEvents\<close> for the game before the tick: first the
  rejection of a pending request from the attacker to that player, then the breaking of
  an alliance between the two, then the relation penalty of 100 if the player is not the
  attacker. Afterwards no request from the attacker to a player hit is pending, and no
  alliance between the attacker and a player hit is left.
\<close>

theorem launch_breaks_alliances:
  assumes "nuke e = None"
    and "canBuild env g (player e) (nukeType e) (dst e) = Some spawn"
    and "mg e" and "pathFinder e \<noteq> None"
  shows "\<exists>e' g' victims rest.
      tick env t e g = (Returned, e', g')
    \<and> distinct victims
    \<and> set victims = {p. nukeType e \<noteq> MIRVWarhead
                        \<and> ownsTileInBlast env g (dst e) (nukeType e) p
                        \<and> nukeAllianceBreakThreshold env
                            < blastWeight env g (dst e) (nukeType e) p}
    \<and> (0 \<le> nukeAllianceBreakThreshold env \<longrightarrow>
         set victims = {p. nukeType e \<noteq> MIRVWarhead
                           \<and> nukeAllianceBreakThreshold env
                               < blastWeight env g (dst e) (nukeType e) p})
    \<and> eventLog g' = eventLog g @ concat (map (allianceBreakEvents g (player e)) victims) @ rest
    \<and> filter isDiplomacy rest = []
    \<and> requestRel g' = requestRel g - {player e} \<times> set victims
    \<and> allianceRel g' = allianceRel g
          - ({player e} \<times> set victims \<union> set victims \<times> {player e})"
proof -
  obtain e' g' victims silo where
    t: "tick env t e g = (Returned, e', g')"
    and n: "nuke e' = Some (freshUnitId g)"
    and dv: "distinct victims"
    and sv: "set victims = {p. nukeType e \<noteq> MIRVWarhead
                        \<and> ownsTileInBlast env g (dst e) (nukeType e) p
                        \<and> nukeAllianceBreakThreshold env
                            < blastWeight env g (dst e) (nukeType e) p}"
    and r: "requestRel g' = requestRel g - {player e} \<times> set victims"
    and a: "allianceRel g' = allianceRel g
          - ({player e} \<times> set victims \<union> set victims \<times> {player e})"
    and lg: "eventLog g' = eventLog g
          @ concat (map (allianceBreakEvents g (player e)) victims)
          @ (case tileOwner g (dst e) of
               None \<Rightarrow> []
             | Some tp \<Rightarrow>
                 (if nukeType e = AtomBomb
                  then [DisplayIncomingUnit (freshUnitId g)
                          (playerName g (player e) @ '' - atom bomb inbound'') NUKE_INBOUND tp]
                  else if nukeType e = HydrogenBomb
                  then [DisplayIncomingUnit (freshUnitId g)
                          (playerName g (player e) @ '' - hydrogen bomb inbound'')
                          HYDROGEN_BOMB_INBOUND tp]
                  else [])
                 @ [BombLaunch (player e) (Some tp) (nukeType e)])
          @ silo"
    and silo: "silo = [] \<or> (\<exists>s. silo = [SiloLaunch s])"
    by (rule tick_launch_effect [OF assms, of t])
  let ?rest = "(case tileOwner g (dst e) of
               None \<Rightarrow> []
             | Some tp \<Rightarrow>
                 (if nukeType e = AtomBomb
                  then [DisplayIncomingUnit (freshUnitId g)
                          (playerName g (player e) @ '' - atom bomb inbound'') NUKE_INBOUND tp]
                  else if nukeType e = HydrogenBomb
                  then [DisplayIncomingUnit (freshUnitId g)
                          (playerName g (player e) @ '' - hydrogen bomb inbound'')
                          HYDROGEN_BOMB_INBOUND tp]
                  else [])
                 @ [BombLaunch (player e) (Some tp) (nukeType e)])
          @ silo"
  have f: "filter isDiplomacy ?rest = []"
    using silo by (cases "tileOwner g (dst e)") auto
  have sv': "0 \<le> nukeAllianceBreakThreshold env \<longrightarrow>
         set victims = {p. nukeType e \<noteq> MIRVWarhead
                           \<and> nukeAllianceBreakThreshold env
                               < blastWeight env g (dst e) (nukeType e) p}"
    unfolding sv by (rule impI) (rule beyond_threshold_owns_tile)
  show ?thesis
    by (intro exI [of _ e'] exI [of _ g'] exI [of _ victims] exI [of _ ?rest] conjI
        t dv sv sv' lg f r a)
qed

lemma exampleDiplomacy_launch:
  "fst (tick exampleEnv 7 exampleReady exampleDiplomacy) = Returned"
  "eventLog (snd (snd (tick exampleEnv 7 exampleReady exampleDiplomacy)))
     = [RejectAllianceRequest 1 2, BreakAlliance 1 2, UpdateRelation 2 1 (- 100),
        DisplayIncomingUnit 1 ''player1 - atom bomb inbound'' NUKE_INBOUND 2,
        BombLaunch 1 (Some 2) AtomBomb]"
  "blastWeight exampleEnv exampleDiplomacy 12 AtomBomb 2 = 2"
  "ownsTileInBlast exampleEnv exampleDiplomacy 12 AtomBomb 2"
  by code_simp+

theorem launch_breaks_alliances_witness:
  "nuke exampleReady = None
   \<and> canBuild exampleEnv exampleDiplomacy (player exampleReady) (nukeType exampleReady)
        (dst exampleReady) = Some 0
   \<and> mg exampleReady \<and> pathFinder exampleReady \<noteq> None
   \<and> 0 \<le> nukeAllianceBreakThreshold exampleEnv
   \<and> ownsTileInBlast exampleEnv exampleDiplomacy 12 AtomBomb 2
   \<and> nukeAllianceBreakThreshold exampleEnv < blastWeight exampleEnv exampleDiplomacy 12 AtomBomb 2
   \<and> fst (tick exampleEnv 7 exampleReady exampleDiplomacy) = Returned
   \<and> eventLog (snd (snd (tick exampleEnv 7 exampleReady exampleDiplomacy)))
       = [RejectAllianceRequest 1 2, BreakAlliance 1 2, UpdateRelation 2 1 (- 100),
          DisplayIncomingUnit 1 ''player1 - atom bomb inbound'' NUKE_INBOUND 2,
          BombLaunch 1 (Some 2) AtomBomb]
   \<and> (1, 2) \<notin> requestRel (snd (snd (tick exampleEnv 7 exampleReady exampleDiplomacy)))
   \<and> (2, 1) \<notin> allianceRel (snd (snd (tick exampleEnv 7 exampleReady exampleDiplomacy)))"
proof -
  have h2: "canBuild exampleEnv exampleDiplomacy (player exampleReady) (nukeType exampleReady)
        (dst exampleReady) = Some 0"
    by (simp add: exampleReady_facts exampleEnv_def)
  have th0: "nukeAllianceBreakThreshold exampleEnv = 0"
    by (simp add: exampleEnv_def)
  have th: "nukeAllianceBreakThreshold exampleEnv < blastWeight exampleEnv exampleDiplomacy 12 AtomBomb 2"
    unfolding th0 exampleDiplomacy_launch(3) by simp
  from launch_breaks_alliances [OF exampleReady_facts(1) h2 exampleReady_facts(2,3), of 7]
  obtain e' g' victims rest where
    t: "tick exampleEnv 7 exampleReady exampleDiplomacy = (Returned, e', g')"
    and sv: "set victims = {p. nukeType exampleReady \<noteq> MIRVWarhead
                        \<and> ownsTileInBlast exampleEnv exampleDiplomacy (dst exampleReady) (nukeType exampleReady) p
                        \<and> nukeAllianceBreakThreshold exampleEnv
                            < blastWeight exampleEnv exampleDiplomacy (dst exampleReady) (nukeType exampleReady) p}"
    and r: "requestRel g' = requestRel exampleDiplomacy - {player exampleReady} \<times> set victims"
    and a: "allianceRel g' = allianceRel exampleDiplomacy
          - ({player exampleReady} \<times> set victims \<union> set victims \<times> {player exampleReady})"
    by (elim exE conjE)
  have "2 \<in> set victims"
    unfolding sv using th exampleDiplomacy_launch(4) by (simp add: exampleReady_facts)
  with r a have "(1, 2) \<notin> requestRel g'" "(2, 1) \<notin> allianceRel g'"
    by (simp_all add: exampleReady_facts)
  with t show ?thesis
    using exampleReady_facts(1-3) h2 th th0 exampleDiplomacy_launch(2,4) by simp
qed

section \<open>Announcing the launch\<close>

text \<open>
  As first stated, claim C7 promises an incoming-weapon alert to the owner of the
  destination on every launch at a player's tile. The code displays the alert for two
  weapon classes only. A warhead sub-munition of player 1 launched at the centre tile,
  which player 2 owns, spawns its Unit and is recorded by the statistics sink, and no alert
  is displayed.
\<close>

theorem warhead_launch_not_displayed:
  "nuke exampleWarhead = None
   \<and> tileOwner exampleGame (dst exampleWarhead) = Some 2
   \<and> fst (tick exampleEnv 7 exampleWarhead exampleGame) = Returned
   \<and> nuke (fst (snd (tick exampleEnv 7 exampleWarhead exampleGame))) = Some 1
   \<and> eventLog exampleGame = []
   \<and> eventLog (snd (snd (tick exampleEnv 7 exampleWarhead exampleGame)))
       = [BombLaunch 1 (Some 2) MIRVWarhead]"
  by code_simp


text \<open>
  Claim C7, as amended. On the launch tick, if the destination tile is owned by a player,
  the statistics sink is notified of a launch with the attacker, that player and the
  weapon class; an incoming-weapon alert addressed to that player is displayed when the
  weapon class is the atom bomb or the hydrogen bomb, and only then. Neither happens when
  the destination has no owner.
\<close>

theorem launch_announces_by_class:
  assumes "nuke e = None"
    and "canBuild env g (player e) (nukeType e) (dst e) = Some spawn"
    and "mg e" and "pathFinder e \<noteq> None"
  shows "\<exists>e' g' evs.
      tick env t e g = (Returned, e', g')
    \<and> eventLog g' = eventLog g @ evs
    \<and> filter isAnnouncement evs =
        (case tileOwner g (dst e) of
           None \<Rightarrow> []
         | Some tp \<Rightarrow>
             (if nukeType e = AtomBomb
              then [DisplayIncomingUnit (freshUnitId g)
                      (playerName g (player e) @ '' - atom bomb inbound'') NUKE_INBOUND tp]
              else if nukeType e = HydrogenBomb
              then [DisplayIncomingUnit (freshUnitId g)
                      (playerName g (player e) @ '' - hydrogen bomb inbound'')
                      HYDROGEN_BOMB_INBOUND tp]
              else [])
             @ [BombLaunch (player e) (Some tp) (nukeType e)])"
proof -
  let ?notices = "(case tileOwner g (dst e) of
           None \<Rightarrow> []
         | Some tp \<Rightarrow>
             (if nukeType e = AtomBomb
              then [DisplayIncomingUnit (freshUnitId g)
                      (playerName g (player e) @ '' - atom bomb inbound'') NUKE_INBOUND tp]
              else if nukeType e = HydrogenBomb
              then [DisplayIncomingUnit (freshUnitId g)
                      (playerName g (player e) @ '' - hydrogen bomb inbound'')
                      HYDROGEN_BOMB_INBOUND tp]
              else [])
             @ [BombLaunch (player e) (Some tp) (nukeType e)])"
  obtain e' g' victims silo where
    t: "tick env t e g = (Returned, e', g')"
    and "nuke e' = Some (freshUnitId g)"
    and "distinct victims"
    and "set victims = {p. nukeType e \<noteq> MIRVWarhead
                        \<and> ownsTileInBlast env g (dst e) (nukeType e) p
                        \<and> nukeAllianceBreakThreshold env
                            < blastWeight env g (dst e) (nukeType e) p}"
    and "requestRel g' = requestRel g - {player e} \<times> set victims"
    and "allianceRel g' = allianceRel g
          - ({player e} \<times> set victims \<union> set victims \<times> {player e})"
    and lg: "eventLog g' = eventLog g
          @ concat (map (allianceBreakEvents g (player e)) victims) @ ?notices @ silo"
    and silo: "silo = [] \<or> (\<exists>s. silo = [SiloLaunch s])"
    by (rule tick_launch_effect [OF assms, of t])
  have n: "filter isAnnouncement ?notices = ?notices"
    by (cases "tileOwner g (dst e)") simp_all
  have s: "filter isAnnouncement silo = []"
    using silo by auto
  have f: "filter isAnnouncement
          (concat (map (allianceBreakEvents g (player e)) victims) @ ?notices @ silo) = ?notices"
    unfolding filter_append allianceBreakEvents_kinds n s by simp
  show ?thesis
    by (intro exI [of _ e'] exI [of _ g']
        exI [of _ "concat (map (allianceBreakEvents g (player e)) victims) @ ?notices @ silo"]
        conjI t lg f)
qed



lemma exampleGame_launch:
  "eventLog (snd (snd (tick exampleEnv 7 exampleReady exampleGame)))
     = [UpdateRelation 2 1 (- 100),
        DisplayIncomingUnit 1 ''player1 - atom bomb inbound'' NUKE_INBOUND 2,
        BombLaunch 1 (Some 2) AtomBomb]"
  by code_simp

theorem launch_announces_by_class_witness:
  "nuke exampleReady = None
   \<and> canBuild exampleEnv exampleGame (player exampleReady) (nukeType exampleReady)
        (dst exampleReady) = Some 0
   \<and> mg exampleReady \<and> pathFinder exampleReady \<noteq> None
   \<and> tileOwner exampleGame (dst exampleReady) = Some 2
   \<and> fst (tick exampleEnv 7 exampleReady exampleGame) = Returned
   \<and> filter isAnnouncement (eventLog (snd (snd (tick exampleEnv 7 exampleReady exampleGame))))
       = [DisplayIncomingUnit 1 ''player1 - atom bomb inbound'' NUKE_INBOUND 2,
          BombLaunch 1 (Some 2) AtomBomb]"
proof -
  have h2: "canBuild exampleEnv exampleGame (player exampleReady) (nukeType exampleReady)
        (dst exampleReady) = Some 0"
    by (simp add: exampleReady_facts exampleEnv_def)
  have o: "tileOwner exampleGame (dst exampleReady) = Some 2"
    by (simp add: exampleReady_facts exampleGame_def)
  have l: "eventLog exampleGame = []" "freshUnitId exampleGame = 1"
    "playerName exampleGame 1 = ''player1''" "playerName exampleGame (Suc 0) = ''player1''"
    by (simp_all add: exampleGame_def freshUnitId_def)
  from launch_announces_by_class [OF exampleReady_facts(1) h2 exampleReady_facts(2,3), of 7]
  obtain e' g' evs where
    t: "tick exampleEnv 7 exampleReady exampleGame = (Returned, e', g')"
    and lg: "eventLog g' = eventLog exampleGame @ evs"
    and f: "filter isAnnouncement evs =
        (case tileOwner exampleGame (dst exampleReady) of
           None \<Rightarrow> []
         | Some tp \<Rightarrow>
             (if nukeType exampleReady = AtomBomb
              then [DisplayIncomingUnit (freshUnitId exampleGame)
                      (playerName exampleGame (player exampleReady) @ '' - atom bomb inbound'') NUKE_INBOUND tp]
              else if nukeType exampleReady = HydrogenBomb
              then [DisplayIncomingUnit (freshUnitId exampleGame)
                      (playerName exampleGame (player exampleReady) @ '' - hydrogen bomb inbound'')
                      HYDROGEN_BOMB_INBOUND tp]
              else [])
             @ [BombLaunch (player exampleReady) (Some tp) (nukeType exampleReady)])"
    by (elim exE conjE)
  from f have "filter isAnnouncement evs
       = [DisplayIncomingUnit 1 ''player1 - atom bomb inbound'' NUKE_INBOUND 2,
          BombLaunch 1 (Some 2) AtomBomb]"
    unfolding o by (simp add: exampleReady_facts l)
  with t lg l(1) exampleReady_facts(1-3) h2 o show ?thesis by simp
qed


end
